theory Spec2Isabelle
  imports Main "HOL-Library.Word"
begin

section \<open>Regular expressions with capture groups\<close>

text \<open>
  The package compiles one pattern with Go's \<open>regexp\<close> package. The fragment of the
  pattern language it uses is embedded as a datatype, and matching as a backtracking
  matcher that lists every way a pattern can match, in Go's order of preference
  (leftmost start, greedy repetition, first alternative first).
\<close>

datatype regex =
    Lit char            \<comment> \<open>a literal character\<close>
  | NotCh char          \<comment> \<open>\<open>[^c]\<close>: any character but \<open>c\<close>\<close>
  | Bol                 \<comment> \<open>\<open>^\<close>: beginning of the text\<close>
  | Eol                 \<comment> \<open>\<open>$\<close>: end of the text (no multi-line flag)\<close>
  | Eps                 \<comment> \<open>the empty pattern\<close>
  | Cat regex regex     \<comment> \<open>concatenation\<close>
  | Alt regex regex     \<comment> \<open>\<open>r|s\<close>\<close>
  | Star regex          \<comment> \<open>\<open>r*\<close>, greedy\<close>
  | Plus regex          \<comment> \<open>\<open>r+\<close>, greedy\<close>
  | Group nat regex     \<comment> \<open>\<open>(r)\<close>, the capture group of that number\<close>

text \<open>
  A thread of the matcher: the offset reached in the text, the text that is left from
  there, and the offsets (start, end) recorded so far for each capture group.
\<close>

type_synonym thread = "nat \<times> string \<times> (nat \<rightharpoonup> nat \<times> nat)"

text \<open>
  Greedy iteration of a matcher \<open>f\<close>: one more round first, stopping here last. A round
  that consumes nothing is not repeated, so the number of rounds is at most the length
  of the text that is left, which is what the callers pass as the bound \<open>k\<close>.
\<close>

fun star :: "(thread \<Rightarrow> thread list) \<Rightarrow> nat \<Rightarrow> thread \<Rightarrow> thread list" where
  "star f 0 t = [t]"
| "star f (Suc k) t =
     concat (map (star f k)
       (filter (\<lambda>t'. length (fst (snd t')) < length (fst (snd t))) (f t))) @ [t]"

primrec m :: "regex \<Rightarrow> thread \<Rightarrow> thread list" where
  "m (Lit c) t = (case t of (p, s, g) \<Rightarrow>
     (case s of [] \<Rightarrow> [] | x # xs \<Rightarrow> if x = c then [(Suc p, xs, g)] else []))"
| "m (NotCh c) t = (case t of (p, s, g) \<Rightarrow>
     (case s of [] \<Rightarrow> [] | x # xs \<Rightarrow> if x \<noteq> c then [(Suc p, xs, g)] else []))"
| "m Bol t = (if fst t = 0 then [t] else [])"
| "m Eol t = (if fst (snd t) = [] then [t] else [])"
| "m Eps t = [t]"
| "m (Cat r1 r2) t = concat (map (m r2) (m r1 t))"
| "m (Alt r1 r2) t = m r1 t @ m r2 t"
| "m (Star r) t = star (m r) (length (fst (snd t))) t"
| "m (Plus r) t = concat (map (\<lambda>t'. star (m r) (length (fst (snd t'))) t') (m r t))"
| "m (Group i r) t = map (\<lambda>(p', s', g'). (p', s', g'(i \<mapsto> (fst t, p')))) (m r t)"

fun Seqs :: "regex list \<Rightarrow> regex" where
  "Seqs [] = Eps"
| "Seqs [r] = r"
| "Seqs (r # rs) = Cat r (Seqs rs)"

definition Str :: "string \<Rightarrow> regex" where
  "Str w = Seqs (map Lit w)"

primrec ngroups :: "regex \<Rightarrow> nat" where
  "ngroups (Lit c) = 0"
| "ngroups (NotCh c) = 0"
| "ngroups Bol = 0"
| "ngroups Eol = 0"
| "ngroups Eps = 0"
| "ngroups (Cat r1 r2) = max (ngroups r1) (ngroups r2)"
| "ngroups (Alt r1 r2) = max (ngroups r1) (ngroups r2)"
| "ngroups (Star r) = ngroups r"
| "ngroups (Plus r) = ngroups r"
| "ngroups (Group i r) = max i (ngroups r)"

definition slice :: "string \<Rightarrow> nat \<Rightarrow> nat \<Rightarrow> string" where
  "slice text a b = take (b - a) (drop a text)"

text \<open>
  \<open>Regexp.FindStringSubmatch\<close>: the leftmost match of the pattern in the text and, of
  the matches that start there, the preferred one. The result holds the text of the
  whole match and then the text of each capture group (empty for a group that took no
  part); \<open>None\<close> is Go's nil slice, returned when the pattern matches nowhere.
\<close>

fun search :: "regex \<Rightarrow> string \<Rightarrow> nat list \<Rightarrow> (nat \<times> thread) option" where
  "search re text [] = None"
| "search re text (i # is) =
     (case m re (i, drop i text, Map.empty) of
        [] \<Rightarrow> search re text is
      | t # _ \<Rightarrow> Some (i, t))"

definition FindStringSubmatch :: "regex \<Rightarrow> string \<Rightarrow> string list option" where
  "FindStringSubmatch re text =
     (case search re text [0 ..< Suc (length text)] of
        None \<Rightarrow> None
      | Some (i, (p, s, g)) \<Rightarrow>
          Some (slice text i p #
                map (\<lambda>n. case g n of None \<Rightarrow> [] | Some (a, b) \<Rightarrow> slice text a b)
                    [1 ..< Suc (ngroups re)]))"

subsection \<open>The pattern of the package\<close>

definition dquote :: char where
  "dquote = CHR 0x22"

text \<open>
  \<^verbatim>\<open>var linkRegex = regexp.MustCompile(`^ *<([^>]+)>; rel="(previous|next)" *$`)\<close>
\<close>

definition linkRegex :: regex where
  "linkRegex = Seqs
     [Bol, Star (Lit CHR '' ''),
      Lit CHR ''<'', Group 1 (Plus (NotCh CHR ''>'')), Lit CHR ''>'',
      Str ''; rel='', Lit dquote,
      Group 2 (Alt (Str ''previous'') (Str ''next'')), Lit dquote,
      Star (Lit CHR '' ''), Eol]"


text \<open>
  The shape of a well-formed entry of a \<open>Link\<close> header, as the specification words it:
  padding, \<open><\<close>, the URL, \<open>>; rel="\<close>, the relation name, \<open>"\<close>, padding.
\<close>

definition spec_entry :: "string \<Rightarrow> string \<Rightarrow> string \<Rightarrow> string \<Rightarrow> string" where
  "spec_entry ws1 url rel ws2 =
     ws1 @ ''<'' @ url @ ''>; rel='' @ [dquote] @ rel @ [dquote] @ ws2"

text \<open>White space: space, tab, line feed, vertical tab, form feed, carriage return.\<close>

definition whitespace :: "char \<Rightarrow> bool" where
  "whitespace c \<longleftrightarrow> c \<in> {CHR '' '', CHR 0x09, CHR 0x0A, CHR 0x0B, CHR 0x0C, CHR 0x0D}"

text \<open>The same shape with the padding made of \<open>a\<close> and \<open>b\<close> space characters.\<close>

definition entry :: "nat \<Rightarrow> string \<Rightarrow> string \<Rightarrow> nat \<Rightarrow> string" where
  "entry a url rel b = spec_entry (replicate a CHR '' '') url rel (replicate b CHR '' '')"

text \<open>The offsets of the two capture groups in \<open>entry a url rel b\<close>.\<close>

definition entry_groups :: "nat \<Rightarrow> string \<Rightarrow> string \<Rightarrow> (nat \<rightharpoonup> nat \<times> nat)" where
  "entry_groups a url rel =
     [1 \<mapsto> (Suc a, Suc a + length url),
      2 \<mapsto> (a + length url + 9, a + length url + 9 + length rel)]"

section \<open>Formatting and reading decimal numbers\<close>

definition digit :: "nat \<Rightarrow> char" where
  "digit d = char_of (48 + d)"

function digits :: "nat \<Rightarrow> string" where
  "digits n = (if n < 10 then [digit n] else digits (n div 10) @ [digit (n mod 10)])"
  by pat_completeness auto
termination
  by (relation "measure (\<lambda>n. n)") auto

declare digits.simps [simp del]

text \<open>The verb \<open>%d\<close> of \<open>fmt.Sprintf\<close> on a signed integer.\<close>

definition formatInt :: "int \<Rightarrow> string" where
  "formatInt i = (if i < 0 then CHR ''-'' # digits (nat (- i)) else digits (nat i))"

definition isDigit :: "char \<Rightarrow> bool" where
  "isDigit c \<longleftrightarrow> 48 \<le> (of_char c :: nat) \<and> (of_char c :: nat) \<le> 57"

definition parseNat :: "string \<Rightarrow> nat option" where
  "parseNat s =
     (if s \<noteq> [] \<and> list_all isDigit s
      then Some (foldl (\<lambda>n c. 10 * n + (of_char c - 48)) 0 s)
      else None)"

section \<open>The data of the package\<close>

type_synonym int64 = "64 word"

text \<open>A Go slice: \<open>None\<close> is the nil slice. A Go pointer: \<open>None\<close> is nil.\<close>

type_synonym 'a slice = "'a list option"

text \<open>
  Types that the two source files use and that are declared elsewhere (in the package,
  in the standard library, in \<open>shopspring/decimal\<close>). Nothing here looks inside them.
\<close>

typedecl Time
typedecl OnlyDate
typedecl Decimal
typedecl Variant
typedecl Image
typedecl Metafield

subsection \<open>Products\<close>

definition productsBasePath :: string where
  "productsBasePath = ''products''"

definition productsResourceName :: string where
  "productsResourceName = ''products''"

record ProductOption =
  ID :: int64
  ProductID :: int64
  Name :: string
  Position :: int
  Values :: "string slice"

record Product =
  ID :: int64
  Title :: string
  BodyHTML :: string
  Vendor :: string
  ProductType :: string
  Handle :: string
  CreatedAt :: "Time option"
  UpdatedAt :: "Time option"
  PublishedAt :: "Time option"
  PublishedScope :: string
  Tags :: string
  Status :: string
  Options :: "ProductOption slice"
  Variants :: "Variant slice"
  Image :: Image
  Images :: "Image slice"
  TemplateSuffix :: string
  MetafieldsGlobalTitleTag :: string
  MetafieldsGlobalDescriptionTag :: string
  Metafields :: "Metafield slice"
  AdminGraphqlAPIID :: string

record ProductResource =
  Product :: "Product option"

record ProductsResource =
  Products :: "Product slice"

subsection \<open>Payouts\<close>

definition payoutsBasePath :: string where
  "payoutsBasePath = ''shopify_payments/payouts''"

definition payoutTransactionsBasePath :: string where
  "payoutTransactionsBasePath = ''shopify_payments/balance/transactions''"

type_synonym PayoutStatus = string

definition PayoutStatusScheduled :: PayoutStatus where
  "PayoutStatusScheduled = ''scheduled''"

definition PayoutStatusInTransit :: PayoutStatus where
  "PayoutStatusInTransit = ''in_transit''"

definition PayoutStatusPaid :: PayoutStatus where
  "PayoutStatusPaid = ''paid''"

definition PayoutStatusFailed :: PayoutStatus where
  "PayoutStatusFailed = ''failed''"

definition PayoutStatusCancelled :: PayoutStatus where
  "PayoutStatusCancelled = ''canceled''"

record PayoutsListOptions =
  PageInfo :: string
  Limit :: int
  Fields :: string
  LastId :: int64
  SinceId :: int64
  Status :: PayoutStatus
  DateMin :: "OnlyDate option"
  DateMax :: "OnlyDate option"
  Date :: "OnlyDate option"

record Payout =
  Id :: int64
  Date :: OnlyDate
  Currency :: string
  Amount :: Decimal
  Status :: PayoutStatus

record PayoutTransaction =
  ID :: int64
  Type :: string
  Test :: bool
  PayoutID :: int64
  PayoutStatus :: string
  Currency :: string
  Amount :: Decimal
  Fee :: Decimal
  Net :: Decimal
  SourceID :: int64
  SourceType :: string
  SourceOrderID :: int64
  SourceOrderTransactionID :: int64
  ProcessedAt :: Time

record PayoutResource =
  Payout :: "Payout option"

record PayoutsResource =
  Payouts :: "Payout slice"

record PayoutTransactionsResource =
  Transactions :: "PayoutTransaction slice"

subsection \<open>Pagination\<close>

text \<open>
  Modelled from the spec: the type \<open>ListOptions\<close>, which \<open>Pagination\<close> points to, is
  declared outside the two source files. The specification calls it the pagination
  cursor: the cursor token \<open>page_info\<close>, the page size \<open>limit\<close>, and any other query
  parameters present. A field that holds the default of its type (the empty string,
  zero) is the same as an absent one, so a parameter with an empty value is not kept.
\<close>

record ListOptions =
  PageInfo :: string
  Limit :: nat
  Params :: "(string \<times> string) list"

record ProductListOptions = ListOptions +
  CollectionID :: int64
  ProductType :: string
  Vendor :: string
  Handle :: string
  PublishedAtMin :: Time
  PublishedAtMax :: Time
  PublishedStatus :: string
  PresentmentCurrencies :: string

record Pagination =
  NextPageOptions :: "ListOptions option"
  PreviousPageOptions :: "ListOptions option"

section \<open>The client\<close>

text \<open>
  Modelled from the spec: Go's \<open>error\<close> values that the client reports, in the three
  kinds the specification names: a transport failure, a status outside 2xx (with the
  status and the body), a body that does not decode. \<open>None\<close> is the nil error.
\<close>

datatype error = TransportError string | APIError nat string | DecodeError string

text \<open>
  The argument \<open>resource interface{}\<close> of the client's methods: a pointer to one of the
  resource structs of the two files, which the client fills from the response.
\<close>

datatype Resource =
    ProductRes ProductResource
  | ProductsRes ProductsResource
  | PayoutRes PayoutResource
  | PayoutsRes PayoutsResource
  | PayoutTransactionsRes PayoutTransactionsResource

text \<open>
  The type \<open>Client\<close> and its methods are declared outside the two source files, so the
  methods are parameters of the model. Each is a function of its arguments and of the
  world (the state of the client object and of the remote API, of any type \<open>'w\<close>); it
  returns what the Go method returns, the resource struct as the call left it, and the
  world after the call. The argument \<open>options interface{}\<close> is a value of any type
  \<open>'o\<close>, or nil.
\<close>

record ('o, 'w) Client =
  ListWithPagination ::
    "string \<Rightarrow> Resource \<Rightarrow> 'o option \<Rightarrow> 'w \<Rightarrow> (Resource \<times> Pagination option \<times> error option) \<times> 'w"
  Count :: "string \<Rightarrow> 'o option \<Rightarrow> 'w \<Rightarrow> (int \<times> error option) \<times> 'w"
  Get :: "string \<Rightarrow> Resource \<Rightarrow> 'o option \<Rightarrow> 'w \<Rightarrow> (Resource \<times> error option) \<times> 'w"
  Post :: "string \<Rightarrow> Resource \<Rightarrow> Resource \<Rightarrow> 'w \<Rightarrow> (Resource \<times> error option) \<times> 'w"
  Put :: "string \<Rightarrow> Resource \<Rightarrow> Resource \<Rightarrow> 'w \<Rightarrow> (Resource \<times> error option) \<times> 'w"
  Delete :: "string \<Rightarrow> 'w \<Rightarrow> error option \<times> 'w"

text \<open>
  Reading a field of the struct behind the pointer after the call. The type of that
  struct is fixed by the caller, so a value of another type stands for the struct as
  the caller allocated it.
\<close>

definition asProductResource :: "ProductResource \<Rightarrow> Resource \<Rightarrow> ProductResource" where
  "asProductResource d r = (case r of ProductRes x \<Rightarrow> x | _ \<Rightarrow> d)"

definition asProductsResource :: "ProductsResource \<Rightarrow> Resource \<Rightarrow> ProductsResource" where
  "asProductsResource d r = (case r of ProductsRes x \<Rightarrow> x | _ \<Rightarrow> d)"

definition asPayoutResource :: "PayoutResource \<Rightarrow> Resource \<Rightarrow> PayoutResource" where
  "asPayoutResource d r = (case r of PayoutRes x \<Rightarrow> x | _ \<Rightarrow> d)"

definition asPayoutsResource :: "PayoutsResource \<Rightarrow> Resource \<Rightarrow> PayoutsResource" where
  "asPayoutsResource d r = (case r of PayoutsRes x \<Rightarrow> x | _ \<Rightarrow> d)"

definition asPayoutTransactionsResource ::
  "PayoutTransactionsResource \<Rightarrow> Resource \<Rightarrow> PayoutTransactionsResource" where
  "asPayoutTransactionsResource d r = (case r of PayoutTransactionsRes x \<Rightarrow> x | _ \<Rightarrow> d)"

text \<open>
  A client that keeps a journal: it answers as the client \<open>c\<close> does and appends every
  call it receives to a list carried in the world.
\<close>

datatype 'o call =
    ListWithPaginationCall string Resource "'o option"
  | CountCall string "'o option"
  | GetCall string Resource "'o option"
  | PostCall string Resource Resource
  | PutCall string Resource Resource
  | DeleteCall string

definition recording :: "('o, 'w) Client \<Rightarrow> ('o, 'w \<times> 'o call list) Client" where
  "recording c =
     \<lparr>ListWithPagination = (\<lambda>path resource options (w, journal).
        let (r, w') = ListWithPagination c path resource options w
        in (r, (w', journal @ [ListWithPaginationCall path resource options]))),
      Count = (\<lambda>path options (w, journal).
        let (r, w') = Count c path options w
        in (r, (w', journal @ [CountCall path options]))),
      Get = (\<lambda>path resource options (w, journal).
        let (r, w') = Get c path resource options w
        in (r, (w', journal @ [GetCall path resource options]))),
      Post = (\<lambda>path data resource (w, journal).
        let (r, w') = Post c path data resource w
        in (r, (w', journal @ [PostCall path data resource]))),
      Put = (\<lambda>path data resource (w, journal).
        let (r, w') = Put c path data resource w
        in (r, (w', journal @ [PutCall path data resource]))),
      Delete = (\<lambda>path (w, journal).
        let (r, w') = Delete c path w
        in (r, (w', journal @ [DeleteCall path])))\<rparr>"

section \<open>The product service\<close>

record ('o, 'w) ProductServiceOp =
  client :: "('o, 'w) Client"

text \<open>
  \<open>MetafieldServiceOp\<close> is declared outside the two source files; the product service
  builds one for every metafield call. Its methods are parameters of the model.
\<close>

record ('o, 'w) MetafieldServiceOp =
  client :: "('o, 'w) Client"
  resource :: string
  resourceID :: int64

record ('o, 'w) MetafieldMethods =
  Metafield_List ::
    "('o, 'w) MetafieldServiceOp \<Rightarrow> 'o option \<Rightarrow> 'w \<Rightarrow> (Metafield slice \<times> error option) \<times> 'w"
  Metafield_Count ::
    "('o, 'w) MetafieldServiceOp \<Rightarrow> 'o option \<Rightarrow> 'w \<Rightarrow> (int \<times> error option) \<times> 'w"
  Metafield_Get ::
    "('o, 'w) MetafieldServiceOp \<Rightarrow> int64 \<Rightarrow> 'o option \<Rightarrow> 'w
      \<Rightarrow> (Metafield option \<times> error option) \<times> 'w"
  Metafield_Create ::
    "('o, 'w) MetafieldServiceOp \<Rightarrow> Metafield \<Rightarrow> 'w \<Rightarrow> (Metafield option \<times> error option) \<times> 'w"
  Metafield_Update ::
    "('o, 'w) MetafieldServiceOp \<Rightarrow> Metafield \<Rightarrow> 'w \<Rightarrow> (Metafield option \<times> error option) \<times> 'w"
  Metafield_Delete ::
    "('o, 'w) MetafieldServiceOp \<Rightarrow> int64 \<Rightarrow> 'w \<Rightarrow> error option \<times> 'w"

text \<open>
  Every method has a pointer receiver \<open>s\<close>. The model passes the struct behind it in
  and returns it, after the result, together with the world after the call.
\<close>

definition ProductServiceOp_ListWithPagination ::
  "('o, 'w) ProductServiceOp \<Rightarrow> 'o option \<Rightarrow> 'w
    \<Rightarrow> (Product slice \<times> Pagination option \<times> error option) \<times> ('o, 'w) ProductServiceOp \<times> 'w" where
  "ProductServiceOp_ListWithPagination s options w =
     (let path = productsBasePath @ ''.json'';
          resource = \<lparr>Products = None\<rparr>;
          ((resource', pagination, err), w') =
             ListWithPagination (ProductServiceOp.client s) path (ProductsRes resource) options w
      in if err \<noteq> None then ((None, None, err), s, w')
         else ((Products (asProductsResource resource resource'), pagination, None), s, w'))"

definition ProductServiceOp_List ::
  "('o, 'w) ProductServiceOp \<Rightarrow> 'o option \<Rightarrow> 'w
    \<Rightarrow> (Product slice \<times> error option) \<times> ('o, 'w) ProductServiceOp \<times> 'w" where
  "ProductServiceOp_List s options w =
     (let ((products, pagination, err), s', w') = ProductServiceOp_ListWithPagination s options w
      in if err \<noteq> None then ((None, err), s', w')
         else ((products, None), s', w'))"

definition ProductServiceOp_Count ::
  "('o, 'w) ProductServiceOp \<Rightarrow> 'o option \<Rightarrow> 'w
    \<Rightarrow> (int \<times> error option) \<times> ('o, 'w) ProductServiceOp \<times> 'w" where
  "ProductServiceOp_Count s options w =
     (let path = productsBasePath @ ''/count.json'';
          (r, w') = Count (ProductServiceOp.client s) path options w
      in (r, s, w'))"

definition ProductServiceOp_Get ::
  "('o, 'w) ProductServiceOp \<Rightarrow> int64 \<Rightarrow> 'o option \<Rightarrow> 'w
    \<Rightarrow> (Product option \<times> error option) \<times> ('o, 'w) ProductServiceOp \<times> 'w" where
  "ProductServiceOp_Get s productID options w =
     (let path = productsBasePath @ ''/'' @ formatInt (sint productID) @ ''.json'';
          resource = \<lparr>Product = None\<rparr>;
          ((resource', err), w') =
             Get (ProductServiceOp.client s) path (ProductRes resource) options w
      in ((Product (asProductResource resource resource'), err), s, w'))"

definition ProductServiceOp_Create ::
  "('o, 'w) ProductServiceOp \<Rightarrow> Product \<Rightarrow> 'w
    \<Rightarrow> (Product option \<times> error option) \<times> ('o, 'w) ProductServiceOp \<times> 'w" where
  "ProductServiceOp_Create s product w =
     (let path = productsBasePath @ ''.json'';
          wrappedData = \<lparr>Product = Some product\<rparr>;
          resource = \<lparr>Product = None\<rparr>;
          ((resource', err), w') =
             Post (ProductServiceOp.client s) path (ProductRes wrappedData) (ProductRes resource) w
      in ((Product (asProductResource resource resource'), err), s, w'))"

definition ProductServiceOp_Update ::
  "('o, 'w) ProductServiceOp \<Rightarrow> Product \<Rightarrow> 'w
    \<Rightarrow> (Product option \<times> error option) \<times> ('o, 'w) ProductServiceOp \<times> 'w" where
  "ProductServiceOp_Update s product w =
     (let path = productsBasePath @ ''/'' @ formatInt (sint (Product.ID product)) @ ''.json'';
          wrappedData = \<lparr>Product = Some product\<rparr>;
          resource = \<lparr>Product = None\<rparr>;
          ((resource', err), w') =
             Put (ProductServiceOp.client s) path (ProductRes wrappedData) (ProductRes resource) w
      in ((Product (asProductResource resource resource'), err), s, w'))"

definition ProductServiceOp_Delete ::
  "('o, 'w) ProductServiceOp \<Rightarrow> int64 \<Rightarrow> 'w
    \<Rightarrow> error option \<times> ('o, 'w) ProductServiceOp \<times> 'w" where
  "ProductServiceOp_Delete s productID w =
     (let (err, w') = Delete (ProductServiceOp.client s)
                        (productsBasePath @ ''/'' @ formatInt (sint productID) @ ''.json'') w
      in (err, s, w'))"

definition ProductServiceOp_ListMetafields ::
  "('o, 'w) MetafieldMethods \<Rightarrow> ('o, 'w) ProductServiceOp \<Rightarrow> int64 \<Rightarrow> 'o option \<Rightarrow> 'w
    \<Rightarrow> (Metafield slice \<times> error option) \<times> ('o, 'w) ProductServiceOp \<times> 'w" where
  "ProductServiceOp_ListMetafields mf s productID options w =
     (let metafieldService = \<lparr>MetafieldServiceOp.client = ProductServiceOp.client s,
            resource = productsResourceName, resourceID = productID\<rparr>;
          (r, w') = Metafield_List mf metafieldService options w
      in (r, s, w'))"

definition ProductServiceOp_CountMetafields ::
  "('o, 'w) MetafieldMethods \<Rightarrow> ('o, 'w) ProductServiceOp \<Rightarrow> int64 \<Rightarrow> 'o option \<Rightarrow> 'w
    \<Rightarrow> (int \<times> error option) \<times> ('o, 'w) ProductServiceOp \<times> 'w" where
  "ProductServiceOp_CountMetafields mf s productID options w =
     (let metafieldService = \<lparr>MetafieldServiceOp.client = ProductServiceOp.client s,
            resource = productsResourceName, resourceID = productID\<rparr>;
          (r, w') = Metafield_Count mf metafieldService options w
      in (r, s, w'))"

definition ProductServiceOp_GetMetafield ::
  "('o, 'w) MetafieldMethods \<Rightarrow> ('o, 'w) ProductServiceOp \<Rightarrow> int64 \<Rightarrow> int64 \<Rightarrow> 'o option \<Rightarrow> 'w
    \<Rightarrow> (Metafield option \<times> error option) \<times> ('o, 'w) ProductServiceOp \<times> 'w" where
  "ProductServiceOp_GetMetafield mf s productID metafieldID options w =
     (let metafieldService = \<lparr>MetafieldServiceOp.client = ProductServiceOp.client s,
            resource = productsResourceName, resourceID = productID\<rparr>;
          (r, w') = Metafield_Get mf metafieldService metafieldID options w
      in (r, s, w'))"

definition ProductServiceOp_CreateMetafield ::
  "('o, 'w) MetafieldMethods \<Rightarrow> ('o, 'w) ProductServiceOp \<Rightarrow> int64 \<Rightarrow> Metafield \<Rightarrow> 'w
    \<Rightarrow> (Metafield option \<times> error option) \<times> ('o, 'w) ProductServiceOp \<times> 'w" where
  "ProductServiceOp_CreateMetafield mf s productID metafield w =
     (let metafieldService = \<lparr>MetafieldServiceOp.client = ProductServiceOp.client s,
            resource = productsResourceName, resourceID = productID\<rparr>;
          (r, w') = Metafield_Create mf metafieldService metafield w
      in (r, s, w'))"

definition ProductServiceOp_UpdateMetafield ::
  "('o, 'w) MetafieldMethods \<Rightarrow> ('o, 'w) ProductServiceOp \<Rightarrow> int64 \<Rightarrow> Metafield \<Rightarrow> 'w
    \<Rightarrow> (Metafield option \<times> error option) \<times> ('o, 'w) ProductServiceOp \<times> 'w" where
  "ProductServiceOp_UpdateMetafield mf s productID metafield w =
     (let metafieldService = \<lparr>MetafieldServiceOp.client = ProductServiceOp.client s,
            resource = productsResourceName, resourceID = productID\<rparr>;
          (r, w') = Metafield_Update mf metafieldService metafield w
      in (r, s, w'))"

definition ProductServiceOp_DeleteMetafield ::
  "('o, 'w) MetafieldMethods \<Rightarrow> ('o, 'w) ProductServiceOp \<Rightarrow> int64 \<Rightarrow> int64 \<Rightarrow> 'w
    \<Rightarrow> error option \<times> ('o, 'w) ProductServiceOp \<times> 'w" where
  "ProductServiceOp_DeleteMetafield mf s productID metafieldID w =
     (let metafieldService = \<lparr>MetafieldServiceOp.client = ProductServiceOp.client s,
            resource = productsResourceName, resourceID = productID\<rparr>;
          (err, w') = Metafield_Delete mf metafieldService metafieldID w
      in (err, s, w'))"

section \<open>The payouts service\<close>

record ('o, 'w) PayoutsServiceOp =
  client :: "('o, 'w) Client"

definition PayoutsServiceOp_ListWithPagination ::
  "('o, 'w) PayoutsServiceOp \<Rightarrow> 'o option \<Rightarrow> 'w
    \<Rightarrow> (Payout slice \<times> Pagination option \<times> error option) \<times> ('o, 'w) PayoutsServiceOp \<times> 'w" where
  "PayoutsServiceOp_ListWithPagination s options w =
     (let path = payoutsBasePath @ ''.json'';
          resource = \<lparr>Payouts = None\<rparr>;
          ((resource', pagination, err), w') =
             ListWithPagination (PayoutsServiceOp.client s) path (PayoutsRes resource) options w
      in if err \<noteq> None then ((None, None, err), s, w')
         else ((Payouts (asPayoutsResource resource resource'), pagination, None), s, w'))"

definition PayoutsServiceOp_List ::
  "('o, 'w) PayoutsServiceOp \<Rightarrow> 'o option \<Rightarrow> 'w
    \<Rightarrow> (Payout slice \<times> error option) \<times> ('o, 'w) PayoutsServiceOp \<times> 'w" where
  "PayoutsServiceOp_List s options w =
     (let ((payouts, pagination, err), s', w') = PayoutsServiceOp_ListWithPagination s options w
      in if err \<noteq> None then ((None, err), s', w')
         else ((payouts, None), s', w'))"

definition PayoutsServiceOp_Get ::
  "('o, 'w) PayoutsServiceOp \<Rightarrow> int64 \<Rightarrow> 'o option \<Rightarrow> 'w
    \<Rightarrow> (Payout option \<times> error option) \<times> ('o, 'w) PayoutsServiceOp \<times> 'w" where
  "PayoutsServiceOp_Get s id' options w =
     (let path = payoutsBasePath @ ''/'' @ formatInt (sint id') @ ''.json'';
          resource = \<lparr>Payout = None\<rparr>;
          ((resource', err), w') =
             Get (PayoutsServiceOp.client s) path (PayoutRes resource) options w
      in ((Payout (asPayoutResource resource resource'), err), s, w'))"

definition PayoutsServiceOp_TransactionsForPayout ::
  "('o, 'w) PayoutsServiceOp \<Rightarrow> int64 \<Rightarrow> 'w
    \<Rightarrow> (PayoutTransaction slice \<times> error option) \<times> ('o, 'w) PayoutsServiceOp \<times> 'w" where
  "PayoutsServiceOp_TransactionsForPayout s payoutID w =
     (let path = payoutTransactionsBasePath @ ''.json?payout_id='' @ formatInt (sint payoutID);
          resource = \<lparr>Transactions = None\<rparr>;
          ((resource', pagination, err), w') =
             ListWithPagination (PayoutsServiceOp.client s) path
               (PayoutTransactionsRes resource) None w
      in if err \<noteq> None then ((None, err), s, w')
         else ((Transactions (asPayoutTransactionsResource resource resource'), None), s, w'))"

section \<open>The pagination protocol of the client\<close>

text \<open>
  The two services hand every list request to \<open>Client.ListWithPagination\<close>. That method,
  the parser of the \<open>Link\<close> header it uses and the cursor type \<open>ListOptions\<close> are outside
  the two source files; of the protocol only the pattern \<open>linkRegex\<close> is in them. This
  section models the protocol from the specification, on top of \<open>linkRegex\<close>.
\<close>

subsection \<open>Splitting and joining\<close>

text \<open>
  Modelled from the spec: "split the header value on \<open>,\<close>"; the same splitting serves
  for the \<open>&\<close> of a query string. The text between two separators is a piece; the empty
  text is one empty piece.
\<close>

fun split :: "char \<Rightarrow> string \<Rightarrow> string list" where
  "split c [] = [[]]"
| "split c (x # xs) =
     (if x = c then [] # split c xs
      else (case split c xs of [] \<Rightarrow> [[x]] | y # ys \<Rightarrow> (x # y) # ys))"

text \<open>
  Modelled from the spec: the pieces of a query string are rendered with the separator
  between them.
\<close>

fun join :: "char \<Rightarrow> string list \<Rightarrow> string" where
  "join c [] = []"
| "join c [x] = x"
| "join c (x # y # ys) = x @ c # join c (y # ys)"

subsection \<open>Cursors and query strings\<close>

text \<open>
  Modelled from the spec: "parse the captured URL's query string". The code that does
  it is outside the two source files. The query string of a URL is what follows the
  first \<open>?\<close>, without the fragment.
\<close>

definition rawQuery :: "string \<Rightarrow> string" where
  "rawQuery url =
     drop 1 (dropWhile (\<lambda>c. c \<noteq> CHR ''?'') (takeWhile (\<lambda>c. c \<noteq> CHR ''#'') url))"

text \<open>
  Modelled from the spec: a query string is a list of \<open>key=value\<close> pieces separated by
  \<open>&\<close>; a piece is cut at its first \<open>=\<close>, and keys and values are taken as they stand.
\<close>

definition keyValue :: "string \<Rightarrow> string \<times> string" where
  "keyValue piece =
     (takeWhile (\<lambda>c. c \<noteq> CHR ''='') piece, drop 1 (dropWhile (\<lambda>c. c \<noteq> CHR ''='') piece))"

definition parseQuery :: "string \<Rightarrow> (string \<times> string) list" where
  "parseQuery q = map keyValue (filter (\<lambda>piece. piece \<noteq> []) (split CHR ''&'' q))"

text \<open>
  Modelled from the spec: the value of a query parameter. It is the first value given
  for the key, and empty when the key is absent.
\<close>

definition param :: "string \<Rightarrow> (string \<times> string) list \<Rightarrow> string" where
  "param k ps = (case map_of ps k of None \<Rightarrow> [] | Some v \<Rightarrow> v)"

text \<open>
  Modelled from the spec: "extract pagination-relevant parameters (cursor token, limit,
  and any other query parameters present) into a PaginationCursor". The code that does
  it is outside the two source files. The specification leaves open what a malformed
  URL is; the model takes the one case in which the parameters do not fit the cursor,
  a limit that is not a decimal number, and gives no cursor then.
\<close>

definition cursorOfParams :: "(string \<times> string) list \<Rightarrow> ListOptions option" where
  "cursorOfParams ps =
     (let others = filter (\<lambda>(k, v). k \<noteq> ''limit'' \<and> k \<noteq> ''page_info'' \<and> v \<noteq> []) ps;
          limit = param ''limit'' ps
      in if limit = [] then
           Some \<lparr>PageInfo = param ''page_info'' ps, Limit = 0, Params = others\<rparr>
         else (case parseNat limit of
                 None \<Rightarrow> None
               | Some n \<Rightarrow> Some \<lparr>PageInfo = param ''page_info'' ps, Limit = n, Params = others\<rparr>))"

definition cursorOfQuery :: "string \<Rightarrow> ListOptions option" where
  "cursorOfQuery q = cursorOfParams (parseQuery q)"

text \<open>
  Modelled from the spec: the fields of a cursor are "renderable back into a query
  string", and "a field contributes to the query string only if it holds a non-default
  value for its type". The encoder of the package is outside the two source files.
\<close>

definition encodeQuery :: "ListOptions \<Rightarrow> string" where
  "encodeQuery c = join CHR ''&''
     ((if Limit c = 0 then [] else [''limit='' @ digits (Limit c)]) @
      (if PageInfo c = [] then [] else [''page_info='' @ PageInfo c]) @
      map (\<lambda>(k, v). k @ ''='' @ v) (filter (\<lambda>(k, v). v \<noteq> []) (Params c)))"

text \<open>
  What holds of every cursor read from a query string: no \<open>&\<close> in the cursor token, and
  the other parameters have non-empty values, keys other than the two named ones, and
  no separator inside.
\<close>

definition cursorInvariant :: "ListOptions \<Rightarrow> bool" where
  "cursorInvariant c \<longleftrightarrow>
     CHR ''&'' \<notin> set (PageInfo c) \<and>
     list_all (\<lambda>(k, v). k \<noteq> ''limit'' \<and> k \<noteq> ''page_info'' \<and> v \<noteq> [] \<and>
                CHR ''&'' \<notin> set k \<and> CHR ''='' \<notin> set k \<and> CHR ''&'' \<notin> set v) (Params c)"

subsection \<open>The Link header\<close>

text \<open>
  Modelled from the spec: what the parser of the \<open>Link\<close> header, which is outside the
  two source files, makes of one entry. "Match against the pattern"; "entries that do
  not match the pattern are silently skipped"; "for each matched entry, parse the
  captured URL's query string" into a cursor; "malformed URL in a matched entry: that
  entry is dropped".
\<close>

definition linkEntry :: "string \<Rightarrow> (string \<times> ListOptions) option" where
  "linkEntry e =
     (case FindStringSubmatch linkRegex e of
        Some [whole, url, rel] \<Rightarrow>
          (case cursorOfQuery (rawQuery url) of None \<Rightarrow> None | Some c \<Rightarrow> Some (rel, c))
      | _ \<Rightarrow> None)"

text \<open>
  Modelled from the spec: "store it keyed by relation name", the \<open>next\<close> entry as
  \<open>NextPageOptions\<close> and the \<open>previous\<close> entry as \<open>PreviousPageOptions\<close>.
\<close>

definition store :: "Pagination \<Rightarrow> string \<times> ListOptions \<Rightarrow> Pagination" where
  "store p rc =
     (case rc of (rel, c) \<Rightarrow>
        if rel = ''next'' then p\<lparr>NextPageOptions := Some c\<rparr>
        else if rel = ''previous'' then p\<lparr>PreviousPageOptions := Some c\<rparr>
        else p)"

text \<open>
  Modelled from the spec: the parser of the \<open>Link\<close> header, which is outside the two
  source files. "Split the header value on \<open>,\<close>", treat each entry as above, in order;
  "empty header: empty mapping (no error)"; "duplicate relation: last one wins".
\<close>

definition extractPagination :: "string \<Rightarrow> Pagination" where
  "extractPagination linkHeader =
     foldl (\<lambda>p e. case linkEntry e of None \<Rightarrow> p | Some rc \<Rightarrow> store p rc)
       \<lparr>NextPageOptions = None, PreviousPageOptions = None\<rparr>
       (split CHR '','' linkHeader)"

subsection \<open>The paged list request\<close>

text \<open>
  Modelled from the spec: what the component reads of an HTTP response, "only \<open>Link\<close>
  and the JSON body", and the status.
\<close>

record Response =
  status :: nat
  link :: "string option"
  body :: string

text \<open>
  Modelled from the spec: "serialize the options object to a query string" and "issue
  an HTTP GET to path?query". The encoder of the options is a parameter.
\<close>

definition requestURL :: "('o \<Rightarrow> string) \<Rightarrow> string \<Rightarrow> 'o option \<Rightarrow> string" where
  "requestURL encode path options =
     (let query = (case options of None \<Rightarrow> [] | Some opt \<Rightarrow> encode opt)
      in if query = [] then path else path @ ''?'' @ query)"

text \<open>
  Modelled from the spec: \<open>Client.ListWithPagination\<close>, which is outside the two source
  files. Issue the GET; a transport failure propagates; "on non-2xx status, fail with an
  API error"; "on success, decode the JSON body into the caller-provided typed
  container", failing if it does not fit; "read the \<open>Link\<close> response header (if present)
  through the Link Header Parser"; "return the decoded items, the Pagination, and no
  error". The HTTP client and the JSON decoder are collaborators and are parameters.
\<close>

definition Client_ListWithPagination ::
  "(string \<Rightarrow> 'w \<Rightarrow> (error + Response) \<times> 'w) \<Rightarrow> (string \<Rightarrow> Resource \<Rightarrow> Resource option)
    \<Rightarrow> ('o \<Rightarrow> string)
    \<Rightarrow> string \<Rightarrow> Resource \<Rightarrow> 'o option \<Rightarrow> 'w
    \<Rightarrow> (Resource \<times> Pagination option \<times> error option) \<times> 'w" where
  "Client_ListWithPagination httpGet decode encode path container options w =
     (let (reply, w') = httpGet (requestURL encode path options) w
      in case reply of
           Inl e \<Rightarrow> ((container, None, Some e), w')
         | Inr resp \<Rightarrow>
             if \<not> (200 \<le> status resp \<and> status resp < 300) then
               ((container, None, Some (APIError (status resp) (body resp))), w')
             else (case decode (body resp) container of
                     None \<Rightarrow> ((container, None, Some (DecodeError (body resp))), w')
                   | Some container' \<Rightarrow>
                       ((container',
                         Some (extractPagination (case link resp of None \<Rightarrow> [] | Some h \<Rightarrow> h)),
                         None), w')))"

section \<open>Clients for the examples\<close>

text \<open>
  A client whose paged list request returns a partly filled container and a Pagination
  together with a decode error, and whose other requests fail in transport; and a client
  whose paged list request succeeds with an empty page and a \<open>next\<close> cursor. Their world
  counts the requests.
\<close>

definition brokenClient :: "(ListOptions, nat) Client" where
  "brokenClient =
     \<lparr>ListWithPagination = (\<lambda>path resource options w.
        ((case resource of
            ProductsRes r \<Rightarrow> ProductsRes \<lparr>Products = Some []\<rparr>
          | PayoutsRes r \<Rightarrow> PayoutsRes \<lparr>Payouts = Some []\<rparr>
          | PayoutTransactionsRes r \<Rightarrow> PayoutTransactionsRes \<lparr>Transactions = Some []\<rparr>
          | r \<Rightarrow> r,
          Some \<lparr>NextPageOptions = None, PreviousPageOptions = None\<rparr>,
          Some (DecodeError ''unexpected end of JSON input'')), Suc w)),
      Count = (\<lambda>path options w. ((0, Some (TransportError ''connection refused'')), Suc w)),
      Get = (\<lambda>path resource options w.
        ((resource, Some (TransportError ''connection refused'')), Suc w)),
      Post = (\<lambda>path data resource w.
        ((resource, Some (TransportError ''connection refused'')), Suc w)),
      Put = (\<lambda>path data resource w.
        ((resource, Some (TransportError ''connection refused'')), Suc w)),
      Delete = (\<lambda>path w. (Some (TransportError ''connection refused''), Suc w))\<rparr>"

definition emptyPageClient :: "(ListOptions, nat) Client" where
  "emptyPageClient =
     \<lparr>ListWithPagination = (\<lambda>path resource options w.
        ((case resource of
            ProductsRes r \<Rightarrow> ProductsRes \<lparr>Products = Some []\<rparr>
          | PayoutsRes r \<Rightarrow> PayoutsRes \<lparr>Payouts = Some []\<rparr>
          | PayoutTransactionsRes r \<Rightarrow> PayoutTransactionsRes \<lparr>Transactions = Some []\<rparr>
          | r \<Rightarrow> r,
          Some \<lparr>NextPageOptions = Some \<lparr>PageInfo = ''abc123'', Limit = 50, Params = []\<rparr>,
                PreviousPageOptions = None\<rparr>,
          None), Suc w)),
      Count = (\<lambda>path options w. ((0, None), Suc w)),
      Get = (\<lambda>path resource options w. ((resource, None), Suc w)),
      Post = (\<lambda>path data resource w. ((resource, None), Suc w)),
      Put = (\<lambda>path data resource w. ((resource, None), Suc w)),
      Delete = (\<lambda>path w. (None, Suc w))\<rparr>"

text \<open>
  A client built from the paged list request modelled above: its HTTP collaborator
  answers every GET with the same response, and its decoder reads every body as an
  empty page.
\<close>

definition cannedHTTP :: "Response \<Rightarrow> string \<Rightarrow> nat \<Rightarrow> (error + Response) \<times> nat" where
  "cannedHTTP resp url w = (Inr resp, Suc w)"

definition decodeEmptyPage :: "string \<Rightarrow> Resource \<Rightarrow> Resource option" where
  "decodeEmptyPage b container =
     Some (case container of
             ProductsRes r \<Rightarrow> ProductsRes \<lparr>Products = Some []\<rparr>
           | PayoutsRes r \<Rightarrow> PayoutsRes \<lparr>Payouts = Some []\<rparr>
           | PayoutTransactionsRes r \<Rightarrow> PayoutTransactionsRes \<lparr>Transactions = Some []\<rparr>
           | r \<Rightarrow> r)"

definition cannedClient :: "Response \<Rightarrow> (ListOptions, nat) Client" where
  "cannedClient resp =
     emptyPageClient\<lparr>ListWithPagination :=
       Client_ListWithPagination (cannedHTTP resp) decodeEmptyPage encodeQuery\<rparr>"

section \<open>Properties of the pattern\<close>

subsection \<open>What each piece of the pattern accepts\<close>

lemma concat_map_single: "concat (map (\<lambda>x. [x]) xs) = xs"
  by (induction xs) auto

lemma m_Eps_fun: "m Eps = (\<lambda>t. [t])"
  by (rule ext) simp

lemma m_Seqs_Cons: "m (Seqs (r # rs)) t = concat (map (m (Seqs rs)) (m r t))"
  by (cases rs) (simp_all add: concat_map_single m_Eps_fun)

lemma in_Seqs_Cons:
  "(p', s', g') \<in> set (m (Seqs (r # rs)) t) \<longleftrightarrow>
     (\<exists>p1 s1 g1. (p1, s1, g1) \<in> set (m r t) \<and> (p', s', g') \<in> set (m (Seqs rs) (p1, s1, g1)))"
  by (auto simp: m_Seqs_Cons)

lemma in_Seqs_Nil: "(p', s', g') \<in> set (m (Seqs []) t) \<longleftrightarrow> t = (p', s', g')"
  by auto

lemma in_Lit:
  "(p', s', g') \<in> set (m (Lit c) (p, s, g)) \<longleftrightarrow> s = c # s' \<and> p' = Suc p \<and> g' = g"
  by (auto split: list.splits)

lemma in_Bol: "(p', s', g') \<in> set (m Bol (p, s, g)) \<longleftrightarrow> p = 0 \<and> p' = 0 \<and> s' = s \<and> g' = g"
  by auto

lemma in_Eol: "(p', s', g') \<in> set (m Eol (p, s, g)) \<longleftrightarrow> s = [] \<and> p' = p \<and> s' = [] \<and> g' = g"
  by auto

lemma in_Str:
  "(p', s', g') \<in> set (m (Str w) (p, s, g)) \<longleftrightarrow> s = w @ s' \<and> p' = p + length w \<and> g' = g"
  unfolding Str_def
proof (induction w arbitrary: p s g)
  case Nil
  show ?case by auto
next
  case (Cons c w)
  show ?case
    by (simp only: list.map in_Seqs_Cons in_Lit Cons.IH) auto
qed

lemma in_Alt:
  "t' \<in> set (m (Alt r1 r2) t) \<longleftrightarrow> t' \<in> set (m r1 t) \<or> t' \<in> set (m r2 t)"
  by simp

lemma in_Group:
  "(p', s', g') \<in> set (m (Group i r) (p, s, g)) \<longleftrightarrow>
     (\<exists>g1. (p', s', g1) \<in> set (m r (p, s, g)) \<and> g' = g1(i \<mapsto> (p, p')))"
proof
  assume "(p', s', g') \<in> set (m (Group i r) (p, s, g))"
  then show "\<exists>g1. (p', s', g1) \<in> set (m r (p, s, g)) \<and> g' = g1(i \<mapsto> (p, p'))"
    by auto
next
  assume "\<exists>g1. (p', s', g1) \<in> set (m r (p, s, g)) \<and> g' = g1(i \<mapsto> (p, p'))"
  then obtain g1 where g1: "(p', s', g1) \<in> set (m r (p, s, g))" "g' = g1(i \<mapsto> (p, p'))"
    by blast
  show "(p', s', g') \<in> set (m (Group i r) (p, s, g))"
    unfolding m.simps set_map
    by (rule image_eqI[where x="(p', s', g1)"]) (simp_all add: g1)
qed

lemma set_star_char:
  assumes f: "\<And>p s g. f (p, s, g) =
      (case s of [] \<Rightarrow> [] | x # xs \<Rightarrow> if P x then [(Suc p, xs, g)] else [])"
  shows "length s \<le> k \<Longrightarrow>
     set (star f k (p, s, g)) = {(p + length u, s', g) | u s'. s = u @ s' \<and> (\<forall>x\<in>set u. P x)}"
proof (induction k arbitrary: p s)
  case 0
  then show ?case by auto
next
  case (Suc k)
  show ?case
  proof (cases s)
    case Nil
    then show ?thesis by (auto simp: f)
  next
    case (Cons x xs)
    show ?thesis
    proof (cases "P x")
      case False
      have "\<And>u s'. x # xs = u @ s' \<Longrightarrow> \<forall>x\<in>set u. P x \<Longrightarrow> u = []"
        using False by (case_tac u) auto
      then show ?thesis using False Cons by (auto simp: f)
    next
      case True
      have len: "length xs \<le> k" using Suc.prems Cons by simp
      have "set (star f (Suc k) (p, s, g)) = set (star f k (Suc p, xs, g)) \<union> {(p, s, g)}"
        using True Cons by (simp add: f)
      also have "\<dots> = {(Suc p + length u, s', g) | u s'. xs = u @ s' \<and> (\<forall>x\<in>set u. P x)} \<union> {(p, s, g)}"
        by (simp only: Suc.IH[OF len])
      also have "\<dots> = {(p + length u, s', g) | u s'. s = u @ s' \<and> (\<forall>x\<in>set u. P x)}"
      proof (rule set_eqI, rule iffI)
        fix t assume "t \<in> {(Suc p + length u, s', g) | u s'. xs = u @ s' \<and> (\<forall>x\<in>set u. P x)} \<union> {(p, s, g)}"
        then consider u s' where "t = (Suc p + length u, s', g)" "xs = u @ s'" "\<forall>x\<in>set u. P x"
          | "t = (p, s, g)" by auto
        then show "t \<in> {(p + length u, s', g) | u s'. s = u @ s' \<and> (\<forall>x\<in>set u. P x)}"
        proof cases
          case 1
          then have "t = (p + length (x # u), s', g) \<and> s = (x # u) @ s' \<and> (\<forall>y\<in>set (x # u). P y)"
            using True Cons by simp
          then show ?thesis by blast
        next
          case 2
          then have "t = (p + length ([]::string), s, g) \<and> s = [] @ s \<and> (\<forall>y\<in>set ([]::string). P y)"
            by simp
          then show ?thesis by blast
        qed
      next
        fix t assume "t \<in> {(p + length u, s', g) | u s'. s = u @ s' \<and> (\<forall>x\<in>set u. P x)}"
        then obtain u s' where t: "t = (p + length u, s', g)" "s = u @ s'" "\<forall>x\<in>set u. P x" by auto
        show "t \<in> {(Suc p + length u, s', g) | u s'. xs = u @ s' \<and> (\<forall>x\<in>set u. P x)} \<union> {(p, s, g)}"
        proof (cases u)
          case Nil
          then show ?thesis using t by simp
        next
          case (Cons y u')
          then have "t = (Suc p + length u', s', g) \<and> xs = u' @ s' \<and> (\<forall>x\<in>set u'. P x)"
            using t \<open>s = x # xs\<close> by simp
          then show ?thesis by blast
        qed
      qed
      finally show ?thesis .
    qed
  qed
qed

lemma in_Star_Lit:
  "(p', s', g') \<in> set (m (Star (Lit c)) (p, s, g)) \<longleftrightarrow>
     (\<exists>n. s = replicate n c @ s' \<and> p' = p + n \<and> g' = g)"
proof -
  have f: "\<And>p s g. m (Lit c) (p, s, g) =
      (case s of [] \<Rightarrow> [] | x # xs \<Rightarrow> if x = c then [(Suc p, xs, g)] else [])"
    by simp
  have "set (m (Star (Lit c)) (p, s, g)) =
      {(p + length u, s', g) | u s'. s = u @ s' \<and> (\<forall>x\<in>set u. x = c)}"
    using set_star_char[of "m (Lit c)" "\<lambda>x. x = c", OF f, of s "length s" p g] by simp
  moreover have "\<And>u. (\<forall>x\<in>set u. x = c) \<longleftrightarrow> u = replicate (length u) c"
    by (metis in_set_replicate replicate_length_same)
  ultimately show ?thesis
    apply simp
    apply (rule iffI)
     apply (metis)
    apply (metis length_replicate)
    done
qed

lemma in_Plus_NotCh:
  "(p', s', g') \<in> set (m (Plus (NotCh c)) (p, s, g)) \<longleftrightarrow>
     (\<exists>u. u \<noteq> [] \<and> c \<notin> set u \<and> s = u @ s' \<and> p' = p + length u \<and> g' = g)"
proof -
  have f: "\<And>p s g. m (NotCh c) (p, s, g) =
      (case s of [] \<Rightarrow> [] | x # xs \<Rightarrow> if x \<noteq> c then [(Suc p, xs, g)] else [])"
    by simp
  have st: "\<And>p s g. set (star (m (NotCh c)) (length s) (p, s, g)) =
      {(p + length u, s', g) | u s'. s = u @ s' \<and> (\<forall>x\<in>set u. x \<noteq> c)}"
    using set_star_char[of "m (NotCh c)" "\<lambda>x. x \<noteq> c", OF f] by simp
  show ?thesis
  proof (cases s)
    case Nil
    then show ?thesis by auto
  next
    case (Cons x xs)
    show ?thesis
    proof (cases "x = c")
      case True
      then have "\<And>u. s = u @ s' \<Longrightarrow> c \<notin> set u \<Longrightarrow> u = []"
        using Cons by (case_tac u) auto
      then show ?thesis using True Cons by auto
    next
      case False
      have "set (m (Plus (NotCh c)) (p, s, g)) =
          {(Suc p + length u, s', g) | u s'. xs = u @ s' \<and> (\<forall>x\<in>set u. x \<noteq> c)}"
        using False Cons st[of xs "Suc p" g] by simp
      then have "(p', s', g') \<in> set (m (Plus (NotCh c)) (p, s, g)) \<longleftrightarrow>
          (\<exists>u. xs = u @ s' \<and> c \<notin> set u \<and> p' = Suc p + length u \<and> g' = g)"
        by auto
      also have "\<dots> \<longleftrightarrow> (\<exists>u. u \<noteq> [] \<and> c \<notin> set u \<and> s = u @ s' \<and> p' = p + length u \<and> g' = g)"
      proof
        assume "\<exists>u. xs = u @ s' \<and> c \<notin> set u \<and> p' = Suc p + length u \<and> g' = g"
        then obtain u where "xs = u @ s'" "c \<notin> set u" "p' = Suc p + length u" "g' = g" by blast
        then have "x # u \<noteq> [] \<and> c \<notin> set (x # u) \<and> s = (x # u) @ s' \<and> p' = p + length (x # u) \<and> g' = g"
          using False Cons by auto
        then show "\<exists>u. u \<noteq> [] \<and> c \<notin> set u \<and> s = u @ s' \<and> p' = p + length u \<and> g' = g" by blast
      next
        assume "\<exists>u. u \<noteq> [] \<and> c \<notin> set u \<and> s = u @ s' \<and> p' = p + length u \<and> g' = g"
        then obtain u where u: "u \<noteq> []" "c \<notin> set u" "s = u @ s'" "p' = p + length u" "g' = g" by blast
        then obtain y u' where "u = y # u'" by (cases u) auto
        then have "xs = u' @ s' \<and> c \<notin> set u' \<and> p' = Suc p + length u' \<and> g' = g"
          using u Cons by auto
        then show "\<exists>u. xs = u @ s' \<and> c \<notin> set u \<and> p' = Suc p + length u \<and> g' = g" by blast
      qed
      finally show ?thesis .
    qed
  qed
qed

lemma linkRegex_sound:
  assumes "(p', s', g') \<in> set (m linkRegex (i, s, Map.empty))"
  shows "i = 0 \<and> s' = [] \<and>
     (\<exists>a u rel b. u \<noteq> [] \<and> CHR ''>'' \<notin> set u \<and> (rel = ''previous'' \<or> rel = ''next'') \<and>
        s = entry a u rel b \<and> p' = length s \<and> g' = entry_groups a u rel)"
  using assms unfolding linkRegex_def entry_def spec_entry_def entry_groups_def
  apply (simp only: in_Seqs_Cons in_Seqs_Nil in_Lit in_Bol in_Eol in_Str in_Alt in_Group
      in_Star_Lit in_Plus_NotCh)
  apply (elim exE conjE disjE)
   apply clarsimp
   apply (rule_tac x=n in exI, rule_tac x=u in exI, simp add: numeral_eq_Suc)
   apply (rule_tac x="''previous''" in exI, simp)
  apply clarsimp
  apply (rule_tac x=n in exI, rule_tac x=u in exI, simp add: numeral_eq_Suc)
  apply (rule_tac x="''next''" in exI, simp)
  done

lemma SeqsI:
  "(p1, s1, g1) \<in> set (m r t) \<Longrightarrow> (p', s', g') \<in> set (m (Seqs rs) (p1, s1, g1)) \<Longrightarrow>
   (p', s', g') \<in> set (m (Seqs (r # rs)) t)"
  using in_Seqs_Cons by blast

lemma linkRegex_accepts:
  assumes u: "u \<noteq> []" "CHR ''>'' \<notin> set u" and rel: "rel = ''previous'' \<or> rel = ''next''"
  shows "(length (entry a u rel b), [], entry_groups a u rel)
           \<in> set (m linkRegex (0, entry a u rel b, Map.empty))"
proof -
  define s8 where "s8 = replicate b CHR '' ''"
  define s7 where "s7 = dquote # s8"
  define s6 where "s6 = rel @ s7"
  define s5 where "s5 = dquote # s6"
  define s4 where "s4 = ''; rel='' @ s5"
  define s3 where "s3 = CHR ''>'' # s4"
  define s2 where "s2 = u @ s3"
  define s1 where "s1 = CHR ''<'' # s2"
  define s0 where "s0 = replicate a CHR '' '' @ s1"
  define g1 :: "nat \<rightharpoonup> nat \<times> nat" where "g1 = [1 \<mapsto> (Suc a, Suc a + length u)]"
  define q where "q = a + length u + 9"
  define g2 where "g2 = g1(2 \<mapsto> (q, q + length rel))"
  have s0: "entry a u rel b = s0"
    by (simp add: entry_def spec_entry_def s0_def s1_def s2_def s3_def s4_def s5_def s6_def s7_def s8_def)
  have len: "length s0 = Suc (q + length rel) + b"
    by (simp add: s0_def s1_def s2_def s3_def s4_def s5_def s6_def s7_def s8_def q_def)
  have g2: "entry_groups a u rel = g2"
    by (simp add: entry_groups_def g2_def g1_def q_def)
  have t1: "(0, s0, Map.empty) \<in> set (m Bol (0, s0, Map.empty))"
    by simp
  have t2: "(a, s1, Map.empty) \<in> set (m (Star (Lit CHR '' '')) (0, s0, Map.empty))"
    unfolding in_Star_Lit s0_def by (rule exI[of _ a]) simp
  have t3: "(Suc a, s2, Map.empty) \<in> set (m (Lit CHR ''<'') (a, s1, Map.empty))"
    unfolding in_Lit s1_def by simp
  have "(Suc a + length u, s3, Map.empty) \<in> set (m (Plus (NotCh CHR ''>'')) (Suc a, s2, Map.empty))"
    unfolding in_Plus_NotCh s2_def by (rule exI[of _ u]) (simp add: u)
  then have t4: "(Suc a + length u, s3, g1)
      \<in> set (m (Group 1 (Plus (NotCh CHR ''>''))) (Suc a, s2, Map.empty))"
    unfolding in_Group g1_def by blast
  have t5: "(Suc (Suc a + length u), s4, g1) \<in> set (m (Lit CHR ''>'') (Suc a + length u, s3, g1))"
    unfolding in_Lit s3_def by simp
  have t6: "(q - 1, s5, g1) \<in> set (m (Str ''; rel='') (Suc (Suc a + length u), s4, g1))"
    unfolding in_Str s4_def q_def by simp
  have t7: "(q, s6, g1) \<in> set (m (Lit dquote) (q - 1, s5, g1))"
    unfolding in_Lit s5_def q_def by simp
  have "(q + length rel, s7, g1) \<in> set (m (Alt (Str ''previous'') (Str ''next'')) (q, s6, g1))"
    unfolding in_Alt in_Str s6_def using rel by auto
  then have t8: "(q + length rel, s7, g2)
      \<in> set (m (Group 2 (Alt (Str ''previous'') (Str ''next''))) (q, s6, g1))"
    unfolding in_Group g2_def by blast
  have t9: "(Suc (q + length rel), s8, g2) \<in> set (m (Lit dquote) (q + length rel, s7, g2))"
    unfolding in_Lit s7_def by simp
  have t10: "(Suc (q + length rel) + b, [], g2)
      \<in> set (m (Star (Lit CHR '' '')) (Suc (q + length rel), s8, g2))"
    unfolding in_Star_Lit s8_def by (rule exI[of _ b]) simp
  have t11: "(Suc (q + length rel) + b, [], g2) \<in> set (m Eol (Suc (q + length rel) + b, [], g2))"
    by simp
  have t12: "(Suc (q + length rel) + b, [], g2)
      \<in> set (m (Seqs []) (Suc (q + length rel) + b, [], g2))"
    by simp
  show ?thesis
    unfolding linkRegex_def s0 g2 len
    by (intro SeqsI[OF t1] SeqsI[OF t2] SeqsI[OF t3] SeqsI[OF t4] SeqsI[OF t5] SeqsI[OF t6]
        SeqsI[OF t7] SeqsI[OF t8] SeqsI[OF t9] SeqsI[OF t10] SeqsI[OF t11] t12)
qed

lemma replicate_lt_unique:
  "replicate a CHR '' '' @ CHR ''<'' # x = replicate a' CHR '' '' @ CHR ''<'' # x' \<Longrightarrow> a = a' \<and> x = x'"
proof (induction a arbitrary: a')
  case 0
  then show ?case by (cases a') auto
next
  case (Suc a)
  then show ?case by (cases a') auto
qed

lemma append_Cons_unique:
  "x \<notin> set u \<Longrightarrow> x \<notin> set u' \<Longrightarrow> u @ x # y = u' @ x # y' \<Longrightarrow> u = u' \<and> y = y'"
proof (induction u arbitrary: u')
  case Nil
  then show ?case by (cases u') auto
next
  case (Cons c u)
  then show ?case by (cases u') auto
qed

lemma entry_unique:
  assumes "entry a u rel b = entry a' u' rel' b'"
    and "CHR ''>'' \<notin> set u" "CHR ''>'' \<notin> set u'"
    and "rel = ''previous'' \<or> rel = ''next''" "rel' = ''previous'' \<or> rel' = ''next''"
  shows "a = a' \<and> u = u' \<and> rel = rel'"
proof -
  let ?t = "\<lambda>rel b. ''; rel='' @ [dquote] @ rel @ [dquote] @ replicate b CHR '' ''"
  from assms(1) have "replicate a CHR '' '' @ CHR ''<'' # (u @ CHR ''>'' # ?t rel b)
      = replicate a' CHR '' '' @ CHR ''<'' # (u' @ CHR ''>'' # ?t rel' b')"
    by (simp add: entry_def spec_entry_def)
  then have a: "a = a'" and eq2: "u @ CHR ''>'' # ?t rel b = u' @ CHR ''>'' # ?t rel' b'"
    using replicate_lt_unique by blast+
  from append_Cons_unique[OF assms(2,3) eq2]
  have u: "u = u'" and "?t rel b = ?t rel' b'"
    by blast+
  then have "rel = rel'"
    using assms(4,5) by auto
  with a u show ?thesis by simp
qed

lemma linkRegex_anchored: "0 < i \<Longrightarrow> m linkRegex (i, s, Map.empty) = []"
proof (rule ccontr)
  assume i: "0 < i" and "m linkRegex (i, s, Map.empty) \<noteq> []"
  then obtain t where "t \<in> set (m linkRegex (i, s, Map.empty))"
    by (cases "m linkRegex (i, s, Map.empty)") auto
  then show False using linkRegex_sound[of "fst t" "fst (snd t)" "snd (snd t)" i s] i by simp
qed

lemma search_none: "(\<forall>i\<in>set is. m re (i, drop i text, Map.empty) = []) \<Longrightarrow> search re text is = None"
  by (induction "is") auto

lemma search_linkRegex:
  "search linkRegex s [0 ..< Suc (length s)] =
     (case m linkRegex (0, s, Map.empty) of [] \<Rightarrow> None | t # _ \<Rightarrow> Some (0, t))"
proof -
  have "search linkRegex s [Suc 0 ..< Suc (length s)] = None"
    by (rule search_none) (auto intro!: linkRegex_anchored)
  moreover have "[0 ..< Suc (length s)] = 0 # [Suc 0 ..< Suc (length s)]"
    by (simp add: upt_conv_Cons del: upt_Suc)
  ultimately show ?thesis
    by (simp del: upt_Suc split: list.splits)
qed

lemma ngroups_linkRegex: "ngroups linkRegex = 2"
  by (simp add: linkRegex_def Str_def)

lemma slice_mid: "length x = n \<Longrightarrow> slice (x @ y @ z) n (n + length y) = y"
  by (simp add: slice_def)

lemma upt_1_3: "[Suc 0 ..< 3] = [Suc 0, 2]"
  by code_simp

lemma group_slices:
  "slice (entry a u rel b) 0 (length (entry a u rel b)) = entry a u rel b"
  "(case entry_groups a u rel (Suc 0) of None \<Rightarrow> [] | Some (x, y) \<Rightarrow> slice (entry a u rel b) x y) = u"
  "(case entry_groups a u rel 2 of None \<Rightarrow> [] | Some (x, y) \<Rightarrow> slice (entry a u rel b) x y) = rel"
proof -
  show "slice (entry a u rel b) 0 (length (entry a u rel b)) = entry a u rel b"
    by (simp add: slice_def)
  show "(case entry_groups a u rel (Suc 0) of None \<Rightarrow> []
         | Some (x, y) \<Rightarrow> slice (entry a u rel b) x y) = u"
    using slice_mid[of "replicate a CHR '' '' @ ''<''" "Suc a" u
        "''>; rel='' @ [dquote] @ rel @ [dquote] @ replicate b CHR '' ''"]
    by (simp add: entry_def spec_entry_def entry_groups_def)
  show "(case entry_groups a u rel 2 of None \<Rightarrow> []
         | Some (x, y) \<Rightarrow> slice (entry a u rel b) x y) = rel"
    using slice_mid[of "replicate a CHR '' '' @ ''<'' @ u @ ''>; rel='' @ [dquote]"
        "a + length u + 9" rel "[dquote] @ replicate b CHR '' ''"]
    by (simp add: entry_def spec_entry_def entry_groups_def)
qed

lemma FindStringSubmatch_entry:
  assumes u: "u \<noteq> []" "CHR ''>'' \<notin> set u" and rel: "rel = ''previous'' \<or> rel = ''next''"
  shows "FindStringSubmatch linkRegex (entry a u rel b) = Some [entry a u rel b, u, rel]"
proof -
  let ?s = "entry a u rel b"
  from linkRegex_accepts[OF assms, of a b]
  obtain t ts where ts: "m linkRegex (0, ?s, Map.empty) = t # ts"
    by (cases "m linkRegex (0, ?s, Map.empty)") auto
  obtain p' s' g' where t: "t = (p', s', g')" by (cases t) auto
  have "(p', s', g') \<in> set (m linkRegex (0, ?s, Map.empty))"
    using ts t by simp
  from linkRegex_sound[OF this] obtain a' u' rel' b' where
    f: "CHR ''>'' \<notin> set u'" "rel' = ''previous'' \<or> rel' = ''next''" "?s = entry a' u' rel' b'"
      "p' = length ?s" "g' = entry_groups a' u' rel'"
    by blast
  from entry_unique[OF f(3) u(2) f(1) rel f(2)] have "a' = a" "u' = u" "rel' = rel" by simp_all
  then have g': "g' = entry_groups a u rel" using f by simp
  show ?thesis
    unfolding FindStringSubmatch_def search_linkRegex ts t
    by (simp add: ngroups_linkRegex f(4) g' group_slices upt_1_3 del: upt_Suc)
qed

lemma FindStringSubmatch_Some:
  assumes "FindStringSubmatch linkRegex s = Some r"
  shows "\<exists>a u rel b. u \<noteq> [] \<and> CHR ''>'' \<notin> set u \<and> (rel = ''previous'' \<or> rel = ''next'') \<and>
           s = entry a u rel b \<and> r = [s, u, rel]"
proof -
  from assms obtain t ts where ts: "m linkRegex (0, s, Map.empty) = t # ts"
    unfolding FindStringSubmatch_def search_linkRegex
    by (cases "m linkRegex (0, s, Map.empty)") auto
  obtain p' s' g' where t: "t = (p', s', g')" by (cases t) auto
  have "(p', s', g') \<in> set (m linkRegex (0, s, Map.empty))"
    using ts t by simp
  from linkRegex_sound[OF this] obtain a u rel b where
    f: "u \<noteq> []" "CHR ''>'' \<notin> set u" "rel = ''previous'' \<or> rel = ''next''" "s = entry a u rel b"
    by blast
  from FindStringSubmatch_entry[OF f(1,2,3), of a b] assms f(4)
  have "r = [s, u, rel]" by simp
  with f show ?thesis by blast
qed

lemma linkRegex_rejects:
  "FindStringSubmatch linkRegex (spec_entry [] ''https://a/b?page_info=x'' ''first'' []) = None"
  "FindStringSubmatch linkRegex
     (''<https://a/b?page_info=x>;rel='' @ [dquote] @ ''next'' @ [dquote]) = None"
  "FindStringSubmatch linkRegex ''<https://a/b?page_info=x>; rel=next'' = None"
  by code_simp+

text \<open>
  Claim C1, as amended. The pattern \<open>linkRegex\<close> matches an entry exactly when the entry
  is: zero or more space characters (U+0020, no other white space), \<open><\<close>, a non-empty
  URL without \<open>>\<close>, \<open>>; rel="\<close>, the word \<open>previous\<close> or \<open>next\<close>, \<open>"\<close>, zero or more
  space characters, and nothing else. The match then is the whole entry, the first
  group is exactly the URL and the second exactly the relation name. Any other entry
  yields no match.
\<close>

theorem linkRegex_matches:
  "FindStringSubmatch linkRegex s = Some r \<longleftrightarrow>
     (\<exists>a u rel b. u \<noteq> [] \<and> CHR ''>'' \<notin> set u \<and> (rel = ''previous'' \<or> rel = ''next'') \<and>
        s = entry a u rel b \<and> r = [s, u, rel])"
  using FindStringSubmatch_Some FindStringSubmatch_entry by blast

theorem linkRegex_matches_witness:
  "FindStringSubmatch linkRegex (entry 1 ''https://a/b?page_info=x'' ''next'' 2)
     = Some [entry 1 ''https://a/b?page_info=x'' ''next'' 2, ''https://a/b?page_info=x'', ''next'']"
proof -
  have "\<exists>a u rel b. u \<noteq> [] \<and> CHR ''>'' \<notin> set u \<and> (rel = ''previous'' \<or> rel = ''next'') \<and>
      entry 1 ''https://a/b?page_info=x'' ''next'' 2 = entry a u rel b \<and>
      [entry 1 ''https://a/b?page_info=x'' ''next'' 2, ''https://a/b?page_info=x'', ''next'']
        = [entry 1 ''https://a/b?page_info=x'' ''next'' 2, u, rel]"
    by (rule exI[of _ 1], rule exI[of _ "''https://a/b?page_info=x''"], rule exI[of _ "''next''"],
        rule exI[of _ 2]) simp
  then show ?thesis
    using linkRegex_matches by blast
qed

text \<open>
  Claim C1 as first stated speaks of optional white space and of a URL containing no
  \<open>>\<close>. An entry that begins with a tab is of that form and is not matched; neither is
  an entry whose URL is empty.
\<close>

theorem linkRegex_whitespace_counterexample:
  "list_all whitespace [CHR 0x09] \<and> CHR ''>'' \<notin> set ''https://a/b?page_info=x'' \<and>
   FindStringSubmatch linkRegex
     (spec_entry [CHR 0x09] ''https://a/b?page_info=x'' ''next'' []) = None \<and>
   CHR ''>'' \<notin> set [] \<and>
   FindStringSubmatch linkRegex (spec_entry [] [] ''next'' []) = None"
  by code_simp

section \<open>Properties of the two services\<close>

text \<open>
  Claim C5. Whenever the client's paged list request returns an error, whatever the
  container and the Pagination it returns with it, \<open>ListWithPagination\<close> of the product
  service and of the payouts service return nil items, a nil Pagination and that error.
\<close>

theorem ListWithPagination_error:
  "(ListWithPagination (ProductServiceOp.client sp) (productsBasePath @ ''.json'')
        (ProductsRes \<lparr>Products = None\<rparr>) options w = ((r, p, Some e), w')
      \<longrightarrow> ProductServiceOp_ListWithPagination sp options w = ((None, None, Some e), sp, w'))
   \<and> (ListWithPagination (PayoutsServiceOp.client sq) (payoutsBasePath @ ''.json'')
        (PayoutsRes \<lparr>Payouts = None\<rparr>) options w = ((rq, pq, Some eq), wq')
      \<longrightarrow> PayoutsServiceOp_ListWithPagination sq options w = ((None, None, Some eq), sq, wq'))"
  by (simp add: ProductServiceOp_ListWithPagination_def PayoutsServiceOp_ListWithPagination_def)

theorem ListWithPagination_error_witness:
  "ProductServiceOp_ListWithPagination \<lparr>ProductServiceOp.client = brokenClient\<rparr> None 0
     = ((None, None, Some (DecodeError ''unexpected end of JSON input'')),
        \<lparr>ProductServiceOp.client = brokenClient\<rparr>, 1)
   \<and> PayoutsServiceOp_ListWithPagination \<lparr>PayoutsServiceOp.client = brokenClient\<rparr> None 0
     = ((None, None, Some (DecodeError ''unexpected end of JSON input'')),
        \<lparr>PayoutsServiceOp.client = brokenClient\<rparr>, 1)"
  using ListWithPagination_error[of "\<lparr>ProductServiceOp.client = brokenClient\<rparr>" None 0
      "ProductsRes \<lparr>Products = Some []\<rparr>"
      "Some \<lparr>NextPageOptions = None, PreviousPageOptions = None\<rparr>"
      "DecodeError ''unexpected end of JSON input''" 1
      "\<lparr>PayoutsServiceOp.client = brokenClient\<rparr>"
      "PayoutsRes \<lparr>Payouts = Some []\<rparr>"
      "Some \<lparr>NextPageOptions = None, PreviousPageOptions = None\<rparr>"
      "DecodeError ''unexpected end of JSON input''" 1]
  by (simp add: brokenClient_def)

text \<open>
  Claim C9. \<open>List\<close> is \<open>ListWithPagination\<close> with the Pagination dropped: on success the
  same items and a nil error, on failure nil items and the same error; for the product
  service and for the payouts service.
\<close>

theorem List_discards_Pagination:
  "ProductServiceOp_List sp options w =
     (case ProductServiceOp_ListWithPagination sp options w of
        ((products, pagination, err), s', w') \<Rightarrow> ((products, err), s', w'))
   \<and> (ProductServiceOp_ListWithPagination sp options w = ((products, pagination, None), sp', w')
        \<longrightarrow> ProductServiceOp_List sp options w = ((products, None), sp', w'))
   \<and> (ProductServiceOp_ListWithPagination sp options w = ((products, pagination, Some e), sp', w')
        \<longrightarrow> ProductServiceOp_List sp options w = ((None, Some e), sp', w'))
   \<and> PayoutsServiceOp_List sq options w =
     (case PayoutsServiceOp_ListWithPagination sq options w of
        ((payouts, pagination, err), s', w') \<Rightarrow> ((payouts, err), s', w'))
   \<and> (PayoutsServiceOp_ListWithPagination sq options w = ((payouts, pagination, None), sq', w')
        \<longrightarrow> PayoutsServiceOp_List sq options w = ((payouts, None), sq', w'))
   \<and> (PayoutsServiceOp_ListWithPagination sq options w = ((payouts, pagination, Some e), sq', w')
        \<longrightarrow> PayoutsServiceOp_List sq options w = ((None, Some e), sq', w'))"
  by (auto simp: ProductServiceOp_List_def PayoutsServiceOp_List_def
      ProductServiceOp_ListWithPagination_def PayoutsServiceOp_ListWithPagination_def Let_def
      split: prod.splits)

theorem List_discards_Pagination_witness:
  "ProductServiceOp_List \<lparr>ProductServiceOp.client = emptyPageClient\<rparr> None 0
     = ((Some [], None), \<lparr>ProductServiceOp.client = emptyPageClient\<rparr>, 1)
   \<and> ProductServiceOp_List \<lparr>ProductServiceOp.client = brokenClient\<rparr> None 0
     = ((None, Some (DecodeError ''unexpected end of JSON input'')),
        \<lparr>ProductServiceOp.client = brokenClient\<rparr>, 1)
   \<and> PayoutsServiceOp_List \<lparr>PayoutsServiceOp.client = emptyPageClient\<rparr> None 0
     = ((Some [], None), \<lparr>PayoutsServiceOp.client = emptyPageClient\<rparr>, 1)
   \<and> PayoutsServiceOp_List \<lparr>PayoutsServiceOp.client = brokenClient\<rparr> None 0
     = ((None, Some (DecodeError ''unexpected end of JSON input'')),
        \<lparr>PayoutsServiceOp.client = brokenClient\<rparr>, 1)"
  using
    List_discards_Pagination[where sp = "\<lparr>ProductServiceOp.client = emptyPageClient\<rparr>"
      and sq = "\<lparr>PayoutsServiceOp.client = emptyPageClient\<rparr>" and options = None and w = 0]
    List_discards_Pagination[where sp = "\<lparr>ProductServiceOp.client = brokenClient\<rparr>"
      and sq = "\<lparr>PayoutsServiceOp.client = brokenClient\<rparr>" and options = None and w = 0]
  by (simp add: ProductServiceOp_ListWithPagination_def PayoutsServiceOp_ListWithPagination_def
      emptyPageClient_def brokenClient_def asProductsResource_def asPayoutsResource_def)

lemma formatInt_examples:
  "formatInt 42 = ''42''"
  "formatInt (- 7) = ''-7''"
  by code_simp+

lemma recording_ListWithPagination:
  "ListWithPagination (recording c) path res options (w, journal) =
     (case ListWithPagination c path res options w of
        (r, w') \<Rightarrow> (r, (w', journal @ [ListWithPaginationCall path res options])))"
  by (simp add: recording_def)

text \<open>
  Claim C10. \<open>TransactionsForPayout\<close> sends the client exactly one request, a paged list
  request for the path \<open>shopify_payments/balance/transactions.json?payout_id=<payoutID>\<close>
  with nil options (the journal of a recording client grows by that one call). It
  returns the transactions of that one response, whatever Pagination came with it, and
  on an error nil transactions and the error.
\<close>

theorem TransactionsForPayout_single_request:
  "PayoutsServiceOp_TransactionsForPayout \<lparr>PayoutsServiceOp.client = recording c\<rparr> payoutID (w, journal) =
     (case ListWithPagination c
             (''shopify_payments/balance/transactions.json?payout_id='' @ formatInt (sint payoutID))
             (PayoutTransactionsRes \<lparr>Transactions = None\<rparr>) None w of
        ((res', pagination, err), w') \<Rightarrow>
          ((case err of
              None \<Rightarrow> (Transactions (asPayoutTransactionsResource \<lparr>Transactions = None\<rparr> res'), None)
            | Some e \<Rightarrow> (None, Some e)),
           \<lparr>PayoutsServiceOp.client = recording c\<rparr>,
           (w', journal @
              [ListWithPaginationCall
                 (''shopify_payments/balance/transactions.json?payout_id='' @ formatInt (sint payoutID))
                 (PayoutTransactionsRes \<lparr>Transactions = None\<rparr>) None])))"
  by (simp add: PayoutsServiceOp_TransactionsForPayout_def recording_ListWithPagination
      payoutTransactionsBasePath_def Let_def split: prod.splits option.splits)

theorem TransactionsForPayout_single_request_witness:
  "PayoutsServiceOp_TransactionsForPayout \<lparr>PayoutsServiceOp.client = recording emptyPageClient\<rparr> 42 (0, [])
     = ((Some [], None), \<lparr>PayoutsServiceOp.client = recording emptyPageClient\<rparr>,
        (1, [ListWithPaginationCall ''shopify_payments/balance/transactions.json?payout_id=42''
               (PayoutTransactionsRes \<lparr>Transactions = None\<rparr>) None]))
   \<and> PayoutsServiceOp_TransactionsForPayout \<lparr>PayoutsServiceOp.client = recording brokenClient\<rparr> (- 7) (0, [])
     = ((None, Some (DecodeError ''unexpected end of JSON input'')),
        \<lparr>PayoutsServiceOp.client = recording brokenClient\<rparr>,
        (1, [ListWithPaginationCall ''shopify_payments/balance/transactions.json?payout_id=-7''
               (PayoutTransactionsRes \<lparr>Transactions = None\<rparr>) None]))"
  using TransactionsForPayout_single_request[of emptyPageClient 42 0 "[]"]
    TransactionsForPayout_single_request[of brokenClient "- 7" 0 "[]"]
  by (simp add: formatInt_examples emptyPageClient_def brokenClient_def asPayoutTransactionsResource_def)

text \<open>
  Claim C7. No method of the two services changes the struct behind its receiver, whose
  only field is the client; and the result of a list call (\<open>List\<close>, \<open>ListWithPagination\<close>,
  \<open>TransactionsForPayout\<close>) is determined by its arguments and by what the client answers:
  two calls that get the same answer return the same, whatever the state of the world.
\<close>

theorem service_state_unchanged:
  "fst (snd (ProductServiceOp_List sp options w)) = sp
   \<and> fst (snd (ProductServiceOp_ListWithPagination sp options w)) = sp
   \<and> fst (snd (ProductServiceOp_Count sp options w)) = sp
   \<and> fst (snd (ProductServiceOp_Get sp productID options w)) = sp
   \<and> fst (snd (ProductServiceOp_Create sp product w)) = sp
   \<and> fst (snd (ProductServiceOp_Update sp product w)) = sp
   \<and> fst (snd (ProductServiceOp_Delete sp productID w)) = sp
   \<and> fst (snd (ProductServiceOp_ListMetafields mf sp productID options w)) = sp
   \<and> fst (snd (ProductServiceOp_CountMetafields mf sp productID options w)) = sp
   \<and> fst (snd (ProductServiceOp_GetMetafield mf sp productID metafieldID options w)) = sp
   \<and> fst (snd (ProductServiceOp_CreateMetafield mf sp productID metafield w)) = sp
   \<and> fst (snd (ProductServiceOp_UpdateMetafield mf sp productID metafield w)) = sp
   \<and> fst (snd (ProductServiceOp_DeleteMetafield mf sp productID metafieldID w)) = sp
   \<and> fst (snd (PayoutsServiceOp_List sq options w)) = sq
   \<and> fst (snd (PayoutsServiceOp_ListWithPagination sq options w)) = sq
   \<and> fst (snd (PayoutsServiceOp_Get sq payoutID options w)) = sq
   \<and> fst (snd (PayoutsServiceOp_TransactionsForPayout sq payoutID w)) = sq
   \<and> sp = \<lparr>ProductServiceOp.client = ProductServiceOp.client sp\<rparr>
   \<and> sq = \<lparr>PayoutsServiceOp.client = PayoutsServiceOp.client sq\<rparr>
   \<and> (fst (ListWithPagination (ProductServiceOp.client sp) (productsBasePath @ ''.json'')
             (ProductsRes \<lparr>Products = None\<rparr>) options w)
        = fst (ListWithPagination (ProductServiceOp.client spa) (productsBasePath @ ''.json'')
             (ProductsRes \<lparr>Products = None\<rparr>) options wa)
      \<longrightarrow> fst (ProductServiceOp_ListWithPagination sp options w)
            = fst (ProductServiceOp_ListWithPagination spa options wa)
          \<and> fst (ProductServiceOp_List sp options w) = fst (ProductServiceOp_List spa options wa))
   \<and> (fst (ListWithPagination (PayoutsServiceOp.client sq) (payoutsBasePath @ ''.json'')
             (PayoutsRes \<lparr>Payouts = None\<rparr>) options w)
        = fst (ListWithPagination (PayoutsServiceOp.client sqa) (payoutsBasePath @ ''.json'')
             (PayoutsRes \<lparr>Payouts = None\<rparr>) options wa)
      \<longrightarrow> fst (PayoutsServiceOp_ListWithPagination sq options w)
            = fst (PayoutsServiceOp_ListWithPagination sqa options wa)
          \<and> fst (PayoutsServiceOp_List sq options w) = fst (PayoutsServiceOp_List sqa options wa))
   \<and> (fst (ListWithPagination (PayoutsServiceOp.client sq)
             (payoutTransactionsBasePath @ ''.json?payout_id='' @ formatInt (sint payoutID))
             (PayoutTransactionsRes \<lparr>Transactions = None\<rparr>) None w)
        = fst (ListWithPagination (PayoutsServiceOp.client sqa)
             (payoutTransactionsBasePath @ ''.json?payout_id='' @ formatInt (sint payoutID))
             (PayoutTransactionsRes \<lparr>Transactions = None\<rparr>) None wa)
      \<longrightarrow> fst (PayoutsServiceOp_TransactionsForPayout sq payoutID w)
            = fst (PayoutsServiceOp_TransactionsForPayout sqa payoutID wa))"
proof -
  have products:
    "fst (snd (ProductServiceOp_List sp options w)) = sp"
    "fst (snd (ProductServiceOp_ListWithPagination sp options w)) = sp"
    "fst (snd (ProductServiceOp_Count sp options w)) = sp"
    "fst (snd (ProductServiceOp_Get sp productID options w)) = sp"
    "fst (snd (ProductServiceOp_Create sp product w)) = sp"
    "fst (snd (ProductServiceOp_Update sp product w)) = sp"
    "fst (snd (ProductServiceOp_Delete sp productID w)) = sp"
    by (simp_all add: ProductServiceOp_List_def ProductServiceOp_ListWithPagination_def
        ProductServiceOp_Count_def ProductServiceOp_Get_def ProductServiceOp_Create_def
        ProductServiceOp_Update_def ProductServiceOp_Delete_def Let_def split: prod.splits)
  have metafields:
    "fst (snd (ProductServiceOp_ListMetafields mf sp productID options w)) = sp"
    "fst (snd (ProductServiceOp_CountMetafields mf sp productID options w)) = sp"
    "fst (snd (ProductServiceOp_GetMetafield mf sp productID metafieldID options w)) = sp"
    "fst (snd (ProductServiceOp_CreateMetafield mf sp productID metafield w)) = sp"
    "fst (snd (ProductServiceOp_UpdateMetafield mf sp productID metafield w)) = sp"
    "fst (snd (ProductServiceOp_DeleteMetafield mf sp productID metafieldID w)) = sp"
    by (simp_all add: ProductServiceOp_ListMetafields_def ProductServiceOp_CountMetafields_def
        ProductServiceOp_GetMetafield_def ProductServiceOp_CreateMetafield_def
        ProductServiceOp_UpdateMetafield_def ProductServiceOp_DeleteMetafield_def Let_def
        split: prod.splits)
  have payouts:
    "fst (snd (PayoutsServiceOp_List sq options w)) = sq"
    "fst (snd (PayoutsServiceOp_ListWithPagination sq options w)) = sq"
    "fst (snd (PayoutsServiceOp_Get sq payoutID options w)) = sq"
    "fst (snd (PayoutsServiceOp_TransactionsForPayout sq payoutID w)) = sq"
    by (simp_all add: PayoutsServiceOp_List_def PayoutsServiceOp_ListWithPagination_def
        PayoutsServiceOp_Get_def PayoutsServiceOp_TransactionsForPayout_def Let_def
        split: prod.splits)
  have fields: "sp = \<lparr>ProductServiceOp.client = ProductServiceOp.client sp\<rparr>"
    "sq = \<lparr>PayoutsServiceOp.client = PayoutsServiceOp.client sq\<rparr>"
    by simp_all
  have same_products:
    "fst (ListWithPagination (ProductServiceOp.client sp) (productsBasePath @ ''.json'')
             (ProductsRes \<lparr>Products = None\<rparr>) options w)
        = fst (ListWithPagination (ProductServiceOp.client spa) (productsBasePath @ ''.json'')
             (ProductsRes \<lparr>Products = None\<rparr>) options wa)
      \<longrightarrow> fst (ProductServiceOp_ListWithPagination sp options w)
            = fst (ProductServiceOp_ListWithPagination spa options wa)
          \<and> fst (ProductServiceOp_List sp options w) = fst (ProductServiceOp_List spa options wa)"
    by (auto simp: ProductServiceOp_List_def ProductServiceOp_ListWithPagination_def Let_def
        split: prod.splits)
  have same_payouts:
    "fst (ListWithPagination (PayoutsServiceOp.client sq) (payoutsBasePath @ ''.json'')
             (PayoutsRes \<lparr>Payouts = None\<rparr>) options w)
        = fst (ListWithPagination (PayoutsServiceOp.client sqa) (payoutsBasePath @ ''.json'')
             (PayoutsRes \<lparr>Payouts = None\<rparr>) options wa)
      \<longrightarrow> fst (PayoutsServiceOp_ListWithPagination sq options w)
            = fst (PayoutsServiceOp_ListWithPagination sqa options wa)
          \<and> fst (PayoutsServiceOp_List sq options w) = fst (PayoutsServiceOp_List sqa options wa)"
    by (auto simp: PayoutsServiceOp_List_def PayoutsServiceOp_ListWithPagination_def Let_def
        split: prod.splits)
  have same_transactions:
    "fst (ListWithPagination (PayoutsServiceOp.client sq)
             (payoutTransactionsBasePath @ ''.json?payout_id='' @ formatInt (sint payoutID))
             (PayoutTransactionsRes \<lparr>Transactions = None\<rparr>) None w)
        = fst (ListWithPagination (PayoutsServiceOp.client sqa)
             (payoutTransactionsBasePath @ ''.json?payout_id='' @ formatInt (sint payoutID))
             (PayoutTransactionsRes \<lparr>Transactions = None\<rparr>) None wa)
      \<longrightarrow> fst (PayoutsServiceOp_TransactionsForPayout sq payoutID w)
            = fst (PayoutsServiceOp_TransactionsForPayout sqa payoutID wa)"
    by (auto simp: PayoutsServiceOp_TransactionsForPayout_def Let_def split: prod.splits)
  from products metafields payouts fields same_products same_payouts same_transactions
  show ?thesis
    by (intro conjI)
qed

theorem service_state_unchanged_witness:
  "fst (snd (ProductServiceOp_ListWithPagination \<lparr>ProductServiceOp.client = emptyPageClient\<rparr> None 0))
     = \<lparr>ProductServiceOp.client = emptyPageClient\<rparr>
   \<and> fst (snd (PayoutsServiceOp_TransactionsForPayout \<lparr>PayoutsServiceOp.client = brokenClient\<rparr> 42 0))
     = \<lparr>PayoutsServiceOp.client = brokenClient\<rparr>
   \<and> fst (ProductServiceOp_ListWithPagination \<lparr>ProductServiceOp.client = emptyPageClient\<rparr> None 0)
     = fst (ProductServiceOp_ListWithPagination \<lparr>ProductServiceOp.client = emptyPageClient\<rparr> None 5)
   \<and> fst (PayoutsServiceOp_List \<lparr>PayoutsServiceOp.client = emptyPageClient\<rparr> None 0)
     = fst (PayoutsServiceOp_List \<lparr>PayoutsServiceOp.client = emptyPageClient\<rparr> None 5)"
proof -
  let ?sp = "\<lparr>ProductServiceOp.client = emptyPageClient\<rparr>"
  let ?sq = "\<lparr>PayoutsServiceOp.client = emptyPageClient\<rparr>"
  let ?sb = "\<lparr>PayoutsServiceOp.client = brokenClient\<rparr>"
  note at_empty = service_state_unchanged[where sp = ?sp and spa = ?sp and sq = ?sq and sqa = ?sq
      and options = None and w = 0 and wa = 5 and productID = 1 and payoutID = 42
      and metafieldID = 1 and mf = undefined and product = undefined and metafield = undefined]
  note at_broken = service_state_unchanged[where sp = ?sp and spa = ?sp and sq = ?sb and sqa = ?sb
      and options = None and w = 0 and wa = 5 and productID = 1 and payoutID = 42
      and metafieldID = 1 and mf = undefined and product = undefined and metafield = undefined]
  have same_products:
    "fst (ListWithPagination (ProductServiceOp.client ?sp) (productsBasePath @ ''.json'')
       (ProductsRes \<lparr>Products = None\<rparr>) None 0)
     = fst (ListWithPagination (ProductServiceOp.client ?sp) (productsBasePath @ ''.json'')
       (ProductsRes \<lparr>Products = None\<rparr>) None 5)"
    by (simp add: emptyPageClient_def)
  have same_payouts:
    "fst (ListWithPagination (PayoutsServiceOp.client ?sq) (payoutsBasePath @ ''.json'')
       (PayoutsRes \<lparr>Payouts = None\<rparr>) None 0)
     = fst (ListWithPagination (PayoutsServiceOp.client ?sq) (payoutsBasePath @ ''.json'')
       (PayoutsRes \<lparr>Payouts = None\<rparr>) None 5)"
    by (simp add: emptyPageClient_def)
  have 1: "fst (snd (ProductServiceOp_ListWithPagination ?sp None 0)) = ?sp"
    using at_empty by blast
  have 2: "fst (snd (PayoutsServiceOp_TransactionsForPayout ?sb 42 0)) = ?sb"
    using at_broken by blast
  have 3: "fst (ProductServiceOp_ListWithPagination ?sp None 0)
      = fst (ProductServiceOp_ListWithPagination ?sp None 5)"
    using at_empty same_products by blast
  have 4: "fst (PayoutsServiceOp_List ?sq None 0) = fst (PayoutsServiceOp_List ?sq None 5)"
    using at_empty same_payouts by blast
  from 1 2 3 4 show ?thesis by (intro conjI)
qed

section \<open>Properties of the pagination protocol\<close>

subsection \<open>Splitting, joining and decimal numbers\<close>

lemma split_not_Nil: "split c s \<noteq> []"
  by (induction s) (auto split: list.splits)

lemma split_no_sep: "x \<in> set (split c s) \<Longrightarrow> c \<notin> set x"
proof (induction s arbitrary: x)
  case Nil
  then show ?case by simp
next
  case (Cons a s)
  show ?case
  proof (cases "a = c")
    case True
    with Cons show ?thesis by auto
  next
    case False
    obtain y ys where ys: "split c s = y # ys"
      using split_not_Nil[of c s] by (cases "split c s") auto
    with Cons.prems False have "x = a # y \<or> x \<in> set ys" by simp
    then show ?thesis
      using Cons.IH[of y] Cons.IH[of x] ys False by auto
  qed
qed

lemma split_none: "c \<notin> set x \<Longrightarrow> split c x = [x]"
  by (induction x) auto

lemma split_append: "c \<notin> set x \<Longrightarrow> split c (x @ c # r) = x # split c r"
  by (induction x) (auto split: list.splits)

lemma split_join:
  "xs \<noteq> [] \<Longrightarrow> \<forall>x\<in>set xs. c \<notin> set x \<Longrightarrow> split c (join c xs) = xs"
proof (induction c xs rule: join.induct)
  case (1 c)
  then show ?case by simp
next
  case (2 c x)
  then show ?case by (simp add: split_none)
next
  case (3 c x y ys)
  then show ?case by (simp add: split_append)
qed

lemma join_Nil_iff: "\<forall>x\<in>set xs. x \<noteq> [] \<Longrightarrow> join c xs = [] \<longleftrightarrow> xs = []"
  by (induction c xs rule: join.induct) auto

lemma keyValue_pair: "CHR ''='' \<notin> set k \<Longrightarrow> keyValue (k @ ''='' @ v) = (k, v)"
proof -
  assume k: "CHR ''='' \<notin> set k"
  then have "takeWhile (\<lambda>c. c \<noteq> CHR ''='') (k @ CHR ''='' # v) = k"
    by (induction k) auto
  moreover from k have "dropWhile (\<lambda>c. c \<noteq> CHR ''='') (k @ CHR ''='' # v) = CHR ''='' # v"
    by (induction k) auto
  ultimately show ?thesis by (simp add: keyValue_def)
qed

lemma parseQuery_join:
  assumes "\<forall>x\<in>set xs. x \<noteq> [] \<and> CHR ''&'' \<notin> set x"
  shows "parseQuery (join CHR ''&'' xs) = map keyValue xs"
proof (cases xs)
  case Nil
  then show ?thesis by (simp add: parseQuery_def)
next
  case (Cons y ys)
  then have "split CHR ''&'' (join CHR ''&'' xs) = xs"
    using assms by (intro split_join) auto
  moreover have "filter (\<lambda>piece. piece \<noteq> []) xs = xs"
    using assms by (simp add: filter_id_conv)
  ultimately show ?thesis by (simp add: parseQuery_def)
qed

lemma parseQuery_parts:
  assumes "(k, v) \<in> set (parseQuery q)"
  shows "CHR ''&'' \<notin> set k \<and> CHR ''='' \<notin> set k \<and> CHR ''&'' \<notin> set v"
proof -
  from assms obtain piece where piece: "piece \<in> set (split CHR ''&'' q)" "(k, v) = keyValue piece"
    by (auto simp: parseQuery_def)
  then have amp: "CHR ''&'' \<notin> set piece" by (simp add: split_no_sep)
  have k: "k = takeWhile (\<lambda>c. c \<noteq> CHR ''='') piece"
    and v: "v = drop 1 (dropWhile (\<lambda>c. c \<noteq> CHR ''='') piece)"
    using piece(2) by (simp_all add: keyValue_def)
  have "set k \<subseteq> set piece" unfolding k by (auto dest: set_takeWhileD)
  moreover have "set v \<subseteq> set piece" unfolding v
    by (meson in_set_dropD set_dropWhileD subsetI)
  moreover have "CHR ''='' \<notin> set k" unfolding k by (auto dest: set_takeWhileD)
  ultimately show ?thesis using amp by auto
qed

lemma isDigit_digit: "d < 10 \<Longrightarrow> isDigit (digit d)"
  by (simp add: isDigit_def digit_def)

lemma digit_value: "d < 10 \<Longrightarrow> of_char (digit d) - 48 = d"
  by (simp add: digit_def)

lemma digits_not_Nil: "digits n \<noteq> []"
  by (subst digits.simps) simp

lemma digits_isDigit: "list_all isDigit (digits n)"
proof (induction n rule: digits.induct)
  case (1 n)
  show ?case
  proof (cases "n < 10")
    case True
    then show ?thesis by (subst digits.simps) (simp add: isDigit_digit)
  next
    case False
    then show ?thesis using 1 by (subst digits.simps) (simp add: isDigit_digit)
  qed
qed

lemma digits_value: "foldl (\<lambda>n c. 10 * n + (of_char c - 48)) 0 (digits n) = n"
proof (induction n rule: digits.induct)
  case (1 n)
  show ?case
  proof (cases "n < 10")
    case True
    then show ?thesis by (subst digits.simps) (simp add: digit_value)
  next
    case False
    then show ?thesis using 1 by (subst digits.simps) (simp add: digit_value)
  qed
qed

lemma parseNat_digits: "parseNat (digits n) = Some n"
  by (simp add: parseNat_def digits_not_Nil digits_isDigit digits_value)

lemma digits_no_amp: "CHR ''&'' \<notin> set (digits n)"
proof
  assume "CHR ''&'' \<in> set (digits n)"
  then have "isDigit CHR ''&''"
    using digits_isDigit[of n] by (simp add: list_all_iff)
  then show False by (simp add: isDigit_def)
qed

subsection \<open>Cursors\<close>

lemma param_in_set: "param k ps \<noteq> [] \<Longrightarrow> (k, param k ps) \<in> set ps"
  by (auto simp: param_def split: option.splits dest: map_of_SomeD)

lemma param_absent: "k \<notin> fst ` set ps \<Longrightarrow> param k ps = []"
  by (simp add: param_def map_of_eq_None_iff[THEN iffD2])

lemma cursorOfParams_fields:
  assumes "cursorOfParams ps = Some c"
  shows "PageInfo c = param ''page_info'' ps"
    and "Params c = filter (\<lambda>(k, v). k \<noteq> ''limit'' \<and> k \<noteq> ''page_info'' \<and> v \<noteq> []) ps"
proof -
  define others where "others = filter (\<lambda>(k, v). k \<noteq> ''limit'' \<and> k \<noteq> ''page_info'' \<and> v \<noteq> []) ps"
  define lim where "lim = param ''limit'' ps"
  define pg where "pg = param ''page_info'' ps"
  have "cursorOfParams ps =
     (if lim = [] then Some \<lparr>PageInfo = pg, Limit = 0, Params = others\<rparr>
      else (case parseNat lim of None \<Rightarrow> None
            | Some n \<Rightarrow> Some \<lparr>PageInfo = pg, Limit = n, Params = others\<rparr>))"
    unfolding cursorOfParams_def Let_def others_def lim_def pg_def by (rule refl)
  with assms have "PageInfo c = pg \<and> Params c = others"
    by (cases "lim = []"; cases "parseNat lim") auto
  then show "PageInfo c = param ''page_info'' ps"
    and "Params c = filter (\<lambda>(k, v). k \<noteq> ''limit'' \<and> k \<noteq> ''page_info'' \<and> v \<noteq> []) ps"
    unfolding others_def pg_def by blast+
qed


lemma cursorOfQuery_invariant:
  assumes "cursorOfQuery q = Some c"
  shows "cursorInvariant c"
proof -
  define ps where "ps = parseQuery q"
  have parts: "\<And>k v. (k, v) \<in> set ps \<Longrightarrow>
      CHR ''&'' \<notin> set k \<and> CHR ''='' \<notin> set k \<and> CHR ''&'' \<notin> set v"
    unfolding ps_def by (rule parseQuery_parts)
  from assms have "cursorOfParams ps = Some c"
    by (simp add: cursorOfQuery_def ps_def)
  note c = cursorOfParams_fields[OF this]
  have "CHR ''&'' \<notin> set (PageInfo c)"
  proof (cases "param ''page_info'' ps = []")
    case True
    then show ?thesis by (simp add: c(1))
  next
    case False
    from parts[OF param_in_set[OF False]] show ?thesis by (simp add: c(1))
  qed
  moreover have "list_all (\<lambda>(k, v). k \<noteq> ''limit'' \<and> k \<noteq> ''page_info'' \<and> v \<noteq> [] \<and>
      CHR ''&'' \<notin> set k \<and> CHR ''='' \<notin> set k \<and> CHR ''&'' \<notin> set v) (Params c)"
    unfolding c(2) list_all_iff
  proof (rule ballI)
    fix x assume x: "x \<in> set (filter (\<lambda>(k, v). k \<noteq> ''limit'' \<and> k \<noteq> ''page_info'' \<and> v \<noteq> []) ps)"
    obtain k v where kv: "x = (k, v)" by (cases x)
    from x kv have "(k, v) \<in> set ps" and "k \<noteq> ''limit'' \<and> k \<noteq> ''page_info'' \<and> v \<noteq> []"
      by simp_all
    with parts[of k v] show "case x of (k, v) \<Rightarrow> k \<noteq> ''limit'' \<and> k \<noteq> ''page_info'' \<and> v \<noteq> [] \<and>
      CHR ''&'' \<notin> set k \<and> CHR ''='' \<notin> set k \<and> CHR ''&'' \<notin> set v"
      unfolding kv by simp
  qed
  ultimately show ?thesis by (simp add: cursorInvariant_def)
qed

lemma encodeQuery_roundtrip:
  assumes inv: "cursorInvariant c"
  shows "cursorOfQuery (encodeQuery c) = Some c"
proof -
  let ?L = "if Limit c = 0 then [] else [(''limit'', digits (Limit c))]"
  let ?P = "if PageInfo c = [] then [] else [(''page_info'', PageInfo c)]"
  let ?enc = "\<lambda>(k, v). k @ ''='' @ v"
  have params: "\<And>k v. (k, v) \<in> set (Params c) \<Longrightarrow>
      k \<noteq> ''limit'' \<and> k \<noteq> ''page_info'' \<and> v \<noteq> [] \<and>
      CHR ''&'' \<notin> set k \<and> CHR ''='' \<notin> set k \<and> CHR ''&'' \<notin> set v"
    using inv by (auto simp: cursorInvariant_def list_all_iff)
  have page: "CHR ''&'' \<notin> set (PageInfo c)"
    using inv by (simp add: cursorInvariant_def)
  have keep: "filter (\<lambda>(k, v). v \<noteq> []) (Params c) = Params c"
    using params by (auto simp: filter_id_conv)
  have enc: "encodeQuery c = join CHR ''&'' (map ?enc (?L @ ?P @ Params c))"
    by (simp add: encodeQuery_def keep)
  have pieces: "\<forall>x\<in>set (map ?enc (?L @ ?P @ Params c)). x \<noteq> [] \<and> CHR ''&'' \<notin> set x"
    using params page digits_no_amp by auto
  have kv: "map keyValue (map ?enc (?L @ ?P @ Params c)) = ?L @ ?P @ Params c"
  proof -
    have "\<And>k v. (k, v) \<in> set (?L @ ?P @ Params c) \<Longrightarrow> keyValue (?enc (k, v)) = (k, v)"
    proof -
      fix k v assume "(k, v) \<in> set (?L @ ?P @ Params c)"
      then have "CHR ''='' \<notin> set k" using params by (auto split: if_splits)
      then show "keyValue (?enc (k, v)) = (k, v)" using keyValue_pair by simp
    qed
    then have "map (keyValue \<circ> ?enc) (?L @ ?P @ Params c) = map id (?L @ ?P @ Params c)"
      by (intro map_cong refl) auto
    then show ?thesis by simp
  qed
  have ps: "parseQuery (encodeQuery c) = ?L @ ?P @ Params c"
    unfolding enc using parseQuery_join[OF pieces] kv by simp
  have no_limit: "''limit'' \<notin> fst ` set (Params c)" and no_page: "''page_info'' \<notin> fst ` set (Params c)"
    using params by force+
  have limit: "param ''limit'' (?L @ ?P @ Params c) = (if Limit c = 0 then [] else digits (Limit c))"
    using param_absent[OF no_limit] by (auto simp: param_def split: option.splits)
  have pinfo: "param ''page_info'' (?L @ ?P @ Params c) = PageInfo c"
    using param_absent[OF no_page] by (auto simp: param_def split: option.splits)
  have others: "filter (\<lambda>(k, v). k \<noteq> ''limit'' \<and> k \<noteq> ''page_info'' \<and> v \<noteq> []) (?L @ ?P @ Params c)
      = Params c"
    using params by (auto simp: filter_id_conv)
  show ?thesis
    unfolding cursorOfQuery_def ps cursorOfParams_def Let_def limit pinfo others
    by (simp add: digits_not_Nil parseNat_digits)
qed

subsection \<open>The entries of a header\<close>

lemma foldl_map_filter:
  "foldl (\<lambda>p e. case f e of None \<Rightarrow> p | Some rc \<Rightarrow> g p rc) a xs = foldl g a (List.map_filter f xs)"
  by (induction xs arbitrary: a) (auto simp: map_filter_simps split: option.splits)

lemma extractPagination_stores:
  "extractPagination h =
     foldl store \<lparr>NextPageOptions = None, PreviousPageOptions = None\<rparr>
       (List.map_filter linkEntry (split CHR '','' h))"
  unfolding extractPagination_def by (rule foldl_map_filter)

lemma map_filter_all_None: "(\<forall>x\<in>set xs. f x = None) \<Longrightarrow> List.map_filter f xs = []"
  by (induction xs) (auto simp: map_filter_simps)

lemma map_filter_single:
  "filter (\<lambda>x. f x \<noteq> None) xs = [x] \<Longrightarrow> f x = Some y \<Longrightarrow> List.map_filter f xs = [y]"
  by (simp add: List.map_filter_def)

lemma map_filter_append: "List.map_filter f (xs @ ys) = List.map_filter f xs @ List.map_filter f ys"
  by (simp add: List.map_filter_def)

lemma linkEntry_unmatched: "FindStringSubmatch linkRegex e = None \<Longrightarrow> linkEntry e = None"
  by (simp add: linkEntry_def)

lemma linkEntry_entry:
  assumes "url \<noteq> []" "CHR ''>'' \<notin> set url" "rel = ''previous'' \<or> rel = ''next''"
  shows "linkEntry (entry a url rel b) =
     (case cursorOfQuery (rawQuery url) of None \<Rightarrow> None | Some c \<Rightarrow> Some (rel, c))"
  by (simp add: linkEntry_def FindStringSubmatch_entry[OF assms])

lemma linkEntry_Some:
  assumes "linkEntry e = Some (rel, c)"
  shows "(rel = ''previous'' \<or> rel = ''next'') \<and> cursorInvariant c"
proof -
  from assms obtain r where r: "FindStringSubmatch linkRegex e = Some r"
    by (cases "FindStringSubmatch linkRegex e") (auto simp: linkEntry_def)
  from FindStringSubmatch_Some[OF r] obtain a u rel' b where
    f: "rel' = ''previous'' \<or> rel' = ''next''" "r = [e, u, rel']"
    by blast
  from assms r f(2) have "rel = rel'" and "cursorOfQuery (rawQuery u) = Some c"
    by (auto simp: linkEntry_def split: option.splits)
  then show ?thesis using f(1) cursorOfQuery_invariant by blast
qed

lemma store_next [simp]:
  "store p (''next'', c) = p\<lparr>NextPageOptions := Some c\<rparr>"
  by (simp add: store_def)

lemma store_previous [simp]:
  "store p (''previous'', c) = p\<lparr>PreviousPageOptions := Some c\<rparr>"
  by (simp add: store_def)

lemma foldl_store_next:
  assumes "(''next'', c) \<in> set rcs" "\<forall>(rel, c)\<in>set rcs. rel = ''previous'' \<or> rel = ''next''"
  shows "\<exists>c'. (''next'', c') \<in> set rcs \<and> NextPageOptions (foldl store p rcs) = Some c'"
  using assms
proof (induction rcs rule: rev_induct)
  case Nil
  then show ?case by simp
next
  case (snoc x rcs)
  obtain rel d where x: "x = (rel, d)" by (cases x)
  show ?case
  proof (cases "rel = ''next''")
    case True
    then show ?thesis using x by auto
  next
    case False
    then have rel: "rel = ''previous''" using snoc.prems(2) x by auto
    from False snoc.prems x have "(''next'', c) \<in> set rcs" by auto
    with snoc.IH snoc.prems(2) obtain c' where
      "(''next'', c') \<in> set rcs" "NextPageOptions (foldl store p rcs) = Some c'" by auto
    then show ?thesis using x rel by auto
  qed
qed

lemma foldl_store_previous:
  assumes "(''previous'', c) \<in> set rcs" "\<forall>(rel, c)\<in>set rcs. rel = ''previous'' \<or> rel = ''next''"
  shows "\<exists>c'. (''previous'', c') \<in> set rcs \<and> PreviousPageOptions (foldl store p rcs) = Some c'"
  using assms
proof (induction rcs rule: rev_induct)
  case Nil
  then show ?case by simp
next
  case (snoc x rcs)
  obtain rel d where x: "x = (rel, d)" by (cases x)
  show ?case
  proof (cases "rel = ''previous''")
    case True
    then show ?thesis using x by auto
  next
    case False
    then have rel: "rel = ''next''" using snoc.prems(2) x by auto
    from False snoc.prems x have "(''previous'', c) \<in> set rcs" by auto
    with snoc.IH snoc.prems(2) obtain c' where
      "(''previous'', c') \<in> set rcs" "PreviousPageOptions (foldl store p rcs) = Some c'" by auto
    then show ?thesis using x rel by auto
  qed
qed

lemma in_map_filter: "y \<in> set (List.map_filter f xs) \<longleftrightarrow> (\<exists>x\<in>set xs. f x = Some y)"
  by (induction xs) (auto simp: map_filter_simps split: option.splits)

subsection \<open>The claims on the Link header\<close>

text \<open>
  Claim C2. When the \<open>Link\<close> header is absent, empty, or has no entry that yields a
  cursor, the parse gives a Pagination with both \<open>NextPageOptions\<close> and
  \<open>PreviousPageOptions\<close> absent, and the paged list request that got a 2xx response with
  a body that decodes returns that Pagination and no error: as a request of the client
  and as \<open>ListWithPagination\<close> of the product service on top of it.
\<close>

theorem missing_Link_header_is_no_error:
  "(hdr = None \<or> hdr = Some [] \<or>
      (\<exists>h. hdr = Some h \<and> (\<forall>e\<in>set (split CHR '','' h). linkEntry e = None)))
   \<longrightarrow>
     extractPagination (case hdr of None \<Rightarrow> [] | Some h \<Rightarrow> h)
       = \<lparr>NextPageOptions = None, PreviousPageOptions = None\<rparr>
     \<and> (httpGet (requestURL encode path options) w = (Inr resp, w') \<and>
          200 \<le> status resp \<and> status resp < 300 \<and> link resp = hdr \<and>
          decode (body resp) container = Some container'
         \<longrightarrow> Client_ListWithPagination httpGet decode encode path container options w
               = ((container', Some \<lparr>NextPageOptions = None, PreviousPageOptions = None\<rparr>, None), w'))
     \<and> (ListWithPagination (ProductServiceOp.client s) = Client_ListWithPagination httpGet decode encode \<and>
          httpGet (requestURL encode (productsBasePath @ ''.json'') options) w = (Inr resp, w') \<and>
          200 \<le> status resp \<and> status resp < 300 \<and> link resp = hdr \<and>
          decode (body resp) (ProductsRes \<lparr>Products = None\<rparr>) = Some (ProductsRes r)
         \<longrightarrow> ProductServiceOp_ListWithPagination s options w
               = ((Products r, Some \<lparr>NextPageOptions = None, PreviousPageOptions = None\<rparr>, None), s, w'))"
proof (intro impI)
  assume hdr: "hdr = None \<or> hdr = Some [] \<or>
      (\<exists>h. hdr = Some h \<and> (\<forall>e\<in>set (split CHR '','' h). linkEntry e = None))"
  define h where "h = (case hdr of None \<Rightarrow> [] | Some h \<Rightarrow> h)"
  have empty: "linkEntry [] = None"
    by code_simp
  from hdr have "\<forall>e\<in>set (split CHR '','' h). linkEntry e = None"
    unfolding h_def using empty by auto
  then have p: "extractPagination h = \<lparr>NextPageOptions = None, PreviousPageOptions = None\<rparr>"
    by (simp add: extractPagination_stores map_filter_all_None)
  have c: "httpGet (requestURL encode path options) w = (Inr resp, w') \<and>
          200 \<le> status resp \<and> status resp < 300 \<and> link resp = hdr \<and>
          decode (body resp) container = Some container'
         \<longrightarrow> Client_ListWithPagination httpGet decode encode path container options w
               = ((container', Some \<lparr>NextPageOptions = None, PreviousPageOptions = None\<rparr>, None), w')"
    for path container container'
    using p by (simp add: Client_ListWithPagination_def h_def)
  have "ListWithPagination (ProductServiceOp.client s) = Client_ListWithPagination httpGet decode encode \<and>
          httpGet (requestURL encode (productsBasePath @ ''.json'') options) w = (Inr resp, w') \<and>
          200 \<le> status resp \<and> status resp < 300 \<and> link resp = hdr \<and>
          decode (body resp) (ProductsRes \<lparr>Products = None\<rparr>) = Some (ProductsRes r)
         \<longrightarrow> ProductServiceOp_ListWithPagination s options w
               = ((Products r, Some \<lparr>NextPageOptions = None, PreviousPageOptions = None\<rparr>, None), s, w')"
    using c[of "productsBasePath @ ''.json''" "ProductsRes \<lparr>Products = None\<rparr>" "ProductsRes r"]
    by (simp add: ProductServiceOp_ListWithPagination_def asProductsResource_def)
  with p c show "extractPagination (case hdr of None \<Rightarrow> [] | Some h \<Rightarrow> h)
       = \<lparr>NextPageOptions = None, PreviousPageOptions = None\<rparr>
     \<and> (httpGet (requestURL encode path options) w = (Inr resp, w') \<and>
          200 \<le> status resp \<and> status resp < 300 \<and> link resp = hdr \<and>
          decode (body resp) container = Some container'
         \<longrightarrow> Client_ListWithPagination httpGet decode encode path container options w
               = ((container', Some \<lparr>NextPageOptions = None, PreviousPageOptions = None\<rparr>, None), w'))
     \<and> (ListWithPagination (ProductServiceOp.client s) = Client_ListWithPagination httpGet decode encode \<and>
          httpGet (requestURL encode (productsBasePath @ ''.json'') options) w = (Inr resp, w') \<and>
          200 \<le> status resp \<and> status resp < 300 \<and> link resp = hdr \<and>
          decode (body resp) (ProductsRes \<lparr>Products = None\<rparr>) = Some (ProductsRes r)
         \<longrightarrow> ProductServiceOp_ListWithPagination s options w
               = ((Products r, Some \<lparr>NextPageOptions = None, PreviousPageOptions = None\<rparr>, None), s, w'))"
    unfolding h_def by blast
qed

theorem missing_Link_header_is_no_error_witness:
  "extractPagination [] = \<lparr>NextPageOptions = None, PreviousPageOptions = None\<rparr>
   \<and> extractPagination (''<https://a/b?page_info=x>; rel='' @ [dquote] @ ''first'' @ [dquote] @ '', nonsense'')
       = \<lparr>NextPageOptions = None, PreviousPageOptions = None\<rparr>
   \<and> ProductServiceOp_ListWithPagination
        \<lparr>ProductServiceOp.client = cannedClient \<lparr>status = 200, link = Some ''nonsense'', body = ''{}''\<rparr>\<rparr>
        None 0
       = ((Some [], Some \<lparr>NextPageOptions = None, PreviousPageOptions = None\<rparr>, None),
          \<lparr>ProductServiceOp.client = cannedClient \<lparr>status = 200, link = Some ''nonsense'', body = ''{}''\<rparr>\<rparr>,
          1)"
proof -
  let ?h = "''<https://a/b?page_info=x>; rel='' @ [dquote] @ ''first'' @ [dquote] @ '', nonsense''"
  let ?resp = "\<lparr>status = 200, link = Some ''nonsense'', body = ''{}''\<rparr>"
  let ?s = "\<lparr>ProductServiceOp.client = cannedClient ?resp\<rparr>"
  have "extractPagination (case Some [] of None \<Rightarrow> [] | Some h \<Rightarrow> h)
      = \<lparr>NextPageOptions = None, PreviousPageOptions = None\<rparr>"
    by (rule missing_Link_header_is_no_error[THEN mp, THEN conjunct1]) simp
  then have 1: "extractPagination [] = \<lparr>NextPageOptions = None, PreviousPageOptions = None\<rparr>"
    by simp
  have "\<forall>e\<in>set (split CHR '','' ?h). linkEntry e = None"
    by code_simp
  then have "extractPagination (case Some ?h of None \<Rightarrow> [] | Some h \<Rightarrow> h)
      = \<lparr>NextPageOptions = None, PreviousPageOptions = None\<rparr>"
    by (intro missing_Link_header_is_no_error[THEN mp, THEN conjunct1]) blast
  then have 2: "extractPagination ?h = \<lparr>NextPageOptions = None, PreviousPageOptions = None\<rparr>"
    by simp
  have "\<forall>e\<in>set (split CHR '','' ''nonsense''). linkEntry e = None"
    by code_simp
  then have hdr: "Some ''nonsense'' = None \<or> Some ''nonsense'' = Some [] \<or>
      (\<exists>h. Some ''nonsense'' = Some h \<and> (\<forall>e\<in>set (split CHR '','' h). linkEntry e = None))"
    by blast
  have 3: "ProductServiceOp_ListWithPagination ?s None 0
       = ((Some [], Some \<lparr>NextPageOptions = None, PreviousPageOptions = None\<rparr>, None), ?s, 1)"
    using missing_Link_header_is_no_error[where hdr = "Some ''nonsense''"
        and httpGet = "cannedHTTP ?resp" and encode = encodeQuery and options = None and w = 0
        and resp = ?resp and w' = 1 and decode = decodeEmptyPage and s = ?s
        and r = "\<lparr>Products = Some []\<rparr>", THEN mp, OF hdr, THEN conjunct2, THEN conjunct2]
    by (simp add: cannedClient_def cannedHTTP_def decodeEmptyPage_def)
  from 1 2 3 show ?thesis by (intro conjI)
qed

text \<open>
  Claim C3. When exactly one entry of the header yields a cursor and its relation is
  \<open>next\<close>, the Pagination has that cursor as \<open>NextPageOptions\<close> and no
  \<open>PreviousPageOptions\<close>. The header of the specification's example yields the limit 50
  and the cursor token \<open>abc123\<close>.
\<close>

theorem only_next_entry:
  "(filter (\<lambda>e. linkEntry e \<noteq> None) (split CHR '','' h) = [e] \<and> linkEntry e = Some (''next'', c)
      \<longrightarrow> extractPagination h = \<lparr>NextPageOptions = Some c, PreviousPageOptions = None\<rparr>)
   \<and> extractPagination
        (''<https://shop.example.com/admin/api/2023-01/products.json?limit=50&page_info=abc123>; rel=''
          @ [dquote] @ ''next'' @ [dquote])
      = \<lparr>NextPageOptions = Some \<lparr>PageInfo = ''abc123'', Limit = 50, Params = []\<rparr>,
         PreviousPageOptions = None\<rparr>"
proof (intro conjI impI)
  assume "filter (\<lambda>e. linkEntry e \<noteq> None) (split CHR '','' h) = [e] \<and> linkEntry e = Some (''next'', c)"
  then have "List.map_filter linkEntry (split CHR '','' h) = [(''next'', c)]"
    by (simp add: map_filter_single)
  then show "extractPagination h = \<lparr>NextPageOptions = Some c, PreviousPageOptions = None\<rparr>"
    by (simp add: extractPagination_stores)
next
  show "extractPagination
        (''<https://shop.example.com/admin/api/2023-01/products.json?limit=50&page_info=abc123>; rel=''
          @ [dquote] @ ''next'' @ [dquote])
      = \<lparr>NextPageOptions = Some \<lparr>PageInfo = ''abc123'', Limit = 50, Params = []\<rparr>,
         PreviousPageOptions = None\<rparr>"
    by code_simp
qed

theorem only_next_entry_witness:
  "extractPagination
     ('' <https://a/b?page_info=x&limit=5>; rel='' @ [dquote] @ ''next'' @ [dquote] @ '' , nonsense'')
   = \<lparr>NextPageOptions = Some \<lparr>PageInfo = ''x'', Limit = 5, Params = []\<rparr>,
      PreviousPageOptions = None\<rparr>"
proof -
  let ?e = "'' <https://a/b?page_info=x&limit=5>; rel='' @ [dquote] @ ''next'' @ [dquote] @ '' ''"
  let ?h = "'' <https://a/b?page_info=x&limit=5>; rel='' @ [dquote] @ ''next'' @ [dquote] @ '' , nonsense''"
  have "filter (\<lambda>e. linkEntry e \<noteq> None) (split CHR '','' ?h) = [?e]"
    by code_simp
  moreover have "linkEntry ?e = Some (''next'', \<lparr>PageInfo = ''x'', Limit = 5, Params = []\<rparr>)"
    by code_simp
  ultimately show ?thesis
    using only_next_entry[of ?h ?e "\<lparr>PageInfo = ''x'', Limit = 5, Params = []\<rparr>"] by blast
qed

text \<open>
  Claim C4. When the entries of a header are one well-formed \<open>next\<close> entry, whose URL
  yields the cursor \<open>c\<close>, and otherwise entries that the pattern does not match, those
  are skipped and the Pagination has \<open>c\<close> as its next cursor (and no previous one).
\<close>

theorem unknown_relations_skipped:
  assumes "split CHR '','' h = pre @ entry a url ''next'' b # post"
    and "url \<noteq> []" and "CHR ''>'' \<notin> set url"
    and "cursorOfQuery (rawQuery url) = Some c"
    and "\<forall>x\<in>set (pre @ post). FindStringSubmatch linkRegex x = None"
  shows "extractPagination h = \<lparr>NextPageOptions = Some c, PreviousPageOptions = None\<rparr>"
proof -
  have "List.map_filter linkEntry pre = []" "List.map_filter linkEntry post = []"
    using assms(5) by (simp_all add: map_filter_all_None linkEntry_unmatched)
  moreover have "linkEntry (entry a url ''next'' b) = Some (''next'', c)"
    using linkEntry_entry[OF assms(2,3), of "''next''" a b] assms(4) by simp
  ultimately have "List.map_filter linkEntry (split CHR '','' h) = [(''next'', c)]"
    unfolding assms(1) by (simp add: map_filter_append map_filter_simps)
  then show ?thesis
    by (simp add: extractPagination_stores)
qed

theorem unknown_relations_skipped_witness:
  "extractPagination
     (''<https://a/b?page_info=p1>; rel='' @ [dquote] @ ''first'' @ [dquote] @
      '', <https://a/b?limit=10&page_info=p2>; rel='' @ [dquote] @ ''next'' @ [dquote])
   = \<lparr>NextPageOptions = Some \<lparr>PageInfo = ''p2'', Limit = 10, Params = []\<rparr>,
      PreviousPageOptions = None\<rparr>"
proof -
  let ?first = "''<https://a/b?page_info=p1>; rel='' @ [dquote] @ ''first'' @ [dquote]"
  let ?h = "?first @ '', <https://a/b?limit=10&page_info=p2>; rel='' @ [dquote] @ ''next'' @ [dquote]"
  have 1: "split CHR '','' ?h = [?first] @ entry 1 ''https://a/b?limit=10&page_info=p2'' ''next'' 0 # []"
    by code_simp
  have 2: "cursorOfQuery (rawQuery ''https://a/b?limit=10&page_info=p2'')
      = Some \<lparr>PageInfo = ''p2'', Limit = 10, Params = []\<rparr>"
    by code_simp
  have 3: "\<forall>x\<in>set ([?first] @ []). FindStringSubmatch linkRegex x = None"
    by code_simp
  show ?thesis
    using unknown_relations_skipped[OF 1 _ _ 2 3] by simp
qed

text \<open>
  Claim C6. When the header has an entry that yields a cursor with the relation
  \<open>previous\<close> and one with the relation \<open>next\<close>, the Pagination has both cursors, and
  rendering either into a query string and reading that query string gives the same
  cursor again.
\<close>

theorem both_cursors_roundtrip:
  assumes "ep \<in> set (split CHR '','' h)" and "linkEntry ep = Some (''previous'', cp)"
    and "en \<in> set (split CHR '','' h)" and "linkEntry en = Some (''next'', cn)"
  shows "\<exists>n p. extractPagination h = \<lparr>NextPageOptions = Some n, PreviousPageOptions = Some p\<rparr>
           \<and> cursorOfQuery (encodeQuery n) = Some n \<and> cursorOfQuery (encodeQuery p) = Some p"
proof -
  define rcs where "rcs = List.map_filter linkEntry (split CHR '','' h)"
  define P where "P = foldl store \<lparr>NextPageOptions = None, PreviousPageOptions = None\<rparr> rcs"
  have P: "extractPagination h = P"
    by (simp add: extractPagination_stores P_def rcs_def)
  have mem: "(''previous'', cp) \<in> set rcs" "(''next'', cn) \<in> set rcs"
    using assms unfolding rcs_def in_map_filter by blast+
  have valid: "\<And>rel c. (rel, c) \<in> set rcs \<Longrightarrow> (rel = ''previous'' \<or> rel = ''next'') \<and> cursorInvariant c"
    unfolding rcs_def in_map_filter using linkEntry_Some by blast
  then have rels: "\<forall>(rel, c)\<in>set rcs. rel = ''previous'' \<or> rel = ''next''"
    by blast
  from foldl_store_next[OF mem(2) rels] obtain n where
    n: "(''next'', n) \<in> set rcs" "NextPageOptions P = Some n"
    unfolding P_def by blast
  from foldl_store_previous[OF mem(1) rels] obtain p where
    p: "(''previous'', p) \<in> set rcs" "PreviousPageOptions P = Some p"
    unfolding P_def by blast
  have "P = \<lparr>NextPageOptions = Some n, PreviousPageOptions = Some p\<rparr>"
    using n(2) p(2) by (cases P) simp
  moreover have "cursorOfQuery (encodeQuery n) = Some n" "cursorOfQuery (encodeQuery p) = Some p"
    using valid[OF n(1)] valid[OF p(1)] encodeQuery_roundtrip by blast+
  ultimately show ?thesis using P by blast
qed

theorem both_cursors_roundtrip_witness:
  "extractPagination
     (''<https://a/b?limit=2&page_info=p0>; rel='' @ [dquote] @ ''previous'' @ [dquote] @
      '', <https://a/b?limit=2&page_info=p2>; rel='' @ [dquote] @ ''next'' @ [dquote])
   = \<lparr>NextPageOptions = Some \<lparr>PageInfo = ''p2'', Limit = 2, Params = []\<rparr>,
      PreviousPageOptions = Some \<lparr>PageInfo = ''p0'', Limit = 2, Params = []\<rparr>\<rparr>
   \<and> cursorOfQuery (encodeQuery \<lparr>PageInfo = ''p2'', Limit = 2, Params = []\<rparr>)
       = Some \<lparr>PageInfo = ''p2'', Limit = 2, Params = []\<rparr>
   \<and> cursorOfQuery (encodeQuery \<lparr>PageInfo = ''p0'', Limit = 2, Params = []\<rparr>)
       = Some \<lparr>PageInfo = ''p0'', Limit = 2, Params = []\<rparr>"
proof -
  let ?ep = "''<https://a/b?limit=2&page_info=p0>; rel='' @ [dquote] @ ''previous'' @ [dquote]"
  let ?en = "'' <https://a/b?limit=2&page_info=p2>; rel='' @ [dquote] @ ''next'' @ [dquote]"
  let ?h = "?ep @ '', <https://a/b?limit=2&page_info=p2>; rel='' @ [dquote] @ ''next'' @ [dquote]"
  have s: "split CHR '','' ?h = [?ep, ?en]"
    by code_simp
  have 1: "?ep \<in> set (split CHR '','' ?h)" and 3: "?en \<in> set (split CHR '','' ?h)"
    unfolding s by simp_all
  have 2: "linkEntry ?ep = Some (''previous'', \<lparr>PageInfo = ''p0'', Limit = 2, Params = []\<rparr>)"
    by code_simp
  have 4: "linkEntry ?en = Some (''next'', \<lparr>PageInfo = ''p2'', Limit = 2, Params = []\<rparr>)"
    by code_simp
  have e: "extractPagination ?h
      = \<lparr>NextPageOptions = Some \<lparr>PageInfo = ''p2'', Limit = 2, Params = []\<rparr>,
         PreviousPageOptions = Some \<lparr>PageInfo = ''p0'', Limit = 2, Params = []\<rparr>\<rparr>"
    by code_simp
  from both_cursors_roundtrip[OF 1 2 3 4] obtain n p where
    "extractPagination ?h = \<lparr>NextPageOptions = Some n, PreviousPageOptions = Some p\<rparr>"
    "cursorOfQuery (encodeQuery n) = Some n" "cursorOfQuery (encodeQuery p) = Some p"
    by blast
  with e show ?thesis by simp
qed

end
